theory Spec2Isabelle
  imports Main
begin

section \<open>Time and text\<close>

text \<open>
  \<^verbatim>\<open>Date.now()\<close> and the values of \<^verbatim>\<open>Date\<close> and \<^verbatim>\<open>Timestamp\<close> objects are
  milliseconds since the epoch. The source compares and subtracts them as numbers; they
  are integers here, so that a difference can be negative as it can in JavaScript.
  Every operation below takes the reading \<open>now\<close> of the clock as an argument: one call
  reads the clock once (\<^verbatim>\<open>serverTimestamp()\<close> resolves to the same reading).
\<close>

type_synonym time = int

text \<open>Decimal rendering of a number inside a template string.\<close>

fun showNat :: "nat \<Rightarrow> string" where
  "showNat n =
     (if n < 10 then [char_of (48 + n)]
      else showNat (n div 10) @ [char_of (48 + n mod 10)])"

declare showNat.simps [simp del]

definition showInt :: "int \<Rightarrow> string" where
  "showInt i = (if i < 0 then CHR ''-'' # showNat (nat (- i)) else showNat (nat i))"

text \<open>
  A string is the list of its code units, and a character here is one of the first 256
  of them. \<^verbatim>\<open>String.prototype.includes\<close>, \<^verbatim>\<open>split('/')\<close> and \<^verbatim>\<open>join('/')\<close>:
\<close>

fun stringIncludes :: "string \<Rightarrow> string \<Rightarrow> bool" where
  "stringIncludes [] sub = (sub = [])"
| "stringIncludes (c # cs) sub = (take (length sub) (c # cs) = sub \<or> stringIncludes cs sub)"

fun splitSlash :: "string \<Rightarrow> string list" where
  "splitSlash [] = [[]]"
| "splitSlash (c # cs) =
     (if c = CHR ''/'' then [] # splitSlash cs
      else (case splitSlash cs of [] \<Rightarrow> [[c]] | seg # segs \<Rightarrow> (c # seg) # segs))"

fun joinSlash :: "string list \<Rightarrow> string" where
  "joinSlash [] = []"
| "joinSlash [seg] = seg"
| "joinSlash (seg # segs) = seg @ ''/'' @ joinSlash segs"

section \<open>The account directory: collection \<^verbatim>\<open>admins\<close>\<close>

datatype AdminRole = Admin | Editor | Viewer

text \<open>
  The fields of a document of \<^verbatim>\<open>admins\<close>, and \<^verbatim>\<open>AdminUser\<close>, which is the document
  together with its id. \<^verbatim>\<open>Timestamp | Date | null\<close> is \<open>time option\<close>.
\<close>

record AdminDoc =
  email :: string
  name :: string
  role :: AdminRole
  isActive :: bool
  lastLogin :: "time option"
  loginAttempts :: nat
  isLocked :: bool
  lockedUntil :: "time option"
  createdAt :: time
  updatedAt :: time

record AdminUser = AdminDoc +
  uid :: string

section \<open>The audit ledger: collection \<^verbatim>\<open>auditLogs\<close>\<close>

datatype AuditStatus = Success | Failed | Blocked

record AuditEntry =
  action :: string
  logEmail :: string
  ipAddress :: string
  logUserAgent :: string
  status :: AuditStatus
  reason :: string
  logTimestamp :: time

section \<open>The identity provider\<close>

text \<open>
  Firebase Auth is an external collaborator. What the gateway uses of it: the signed-in
  user (\<^verbatim>\<open>auth.currentUser\<close>), with an id, an e-mail that may be null and a display name
  that may be null; and the outcome of a sign-in, which is the user or an error carrying
  a \<^verbatim>\<open>code\<close> and a \<^verbatim>\<open>message\<close>. The outcome of a sign-in is a parameter of the login
  functions below.
\<close>

record FirebaseUser =
  fbUid :: string
  fbEmail :: "string option"
  displayName :: "string option"

text \<open>
  Modelled from the spec: the identity provider's \<^verbatim>\<open>issueToken(identity)\<close> gives
  \<^verbatim>\<open>{token, expiresAt}\<close> with the fixed lifetime \<open>T\<close> of 60 minutes (the comment of
  \<^verbatim>\<open>setupTokenRefresh\<close> says the same: tokens expire after 1 hour). A token is the
  identity it was issued to and its expiry.
\<close>

record IdToken =
  tokenUid :: string
  expiresAt :: time

definition tokenLifetime :: time where
  "tokenLifetime = 60 * 60 * 1000"

definition issueToken :: "time \<Rightarrow> FirebaseUser \<Rightarrow> IdToken" where
  "issueToken now fu = \<lparr>tokenUid = fbUid fu, expiresAt = now + tokenLifetime\<rparr>"

type_synonym signInOutcome = "(string \<times> string) + FirebaseUser"

section \<open>Errors\<close>

text \<open>
  The source throws \<^verbatim>\<open>new Error(message)\<close>, or rethrows the provider's error, the only
  one whose \<^verbatim>\<open>code\<close> the source tests. One constructor per thrown message; \<open>message\<close>
  renders it. \<open>FirestoreError\<close> is the error of the Firestore SDK, with its message.
\<close>

datatype error =
    AuthError string string
  | AccessDenied string
  | NotAdmin
  | Inactive
  | Locked int
  | TooManyAttempts
  | InvalidPassword nat
  | InvalidCredentials
  | SignInCancelled
  | FirestoreError string

fun message :: "error \<Rightarrow> string" where
  "message (AuthError code msg) = msg"
| "message (AccessDenied allowed) = ''Access denied. Only '' @ allowed @ '' can login.''"
| "message NotAdmin = ''User is not an admin''"
| "message Inactive = ''Admin account is inactive''"
| "message (Locked m) = ''Account is locked. Try again in '' @ showInt m @ '' minutes''"
| "message TooManyAttempts = ''Too many failed login attempts. Account locked for 15 minutes''"
| "message (InvalidPassword n) =
     ''Invalid email or password. '' @ showNat n @ '' attempts remaining''"
| "message InvalidCredentials = ''Invalid email or password''"
| "message SignInCancelled = ''Sign-in cancelled. Please try again.''"
| "message (FirestoreError msg) = msg"

section \<open>Document references\<close>

text \<open>
  \<^verbatim>\<open>doc(db, collection, id)\<close> of the Firestore SDK builds the reference before anything
  is sent. The SDK is not part of the repository; this is what its \<^verbatim>\<open>doc\<close> does with a
  collection's name and an id. \<^verbatim>\<open>ResourcePath.fromString\<close> throws when the id contains
  \<^verbatim>\<open>//\<close>, splits it at every \<^verbatim>\<open>/\<close> and drops the empty segments; \<^verbatim>\<open>doc\<close> throws when
  the path, the collection's name followed by those segments, has an odd number of
  segments. A path of two segments is a document of the collection; a longer one is a
  document of a subcollection.
\<close>

definition doc :: "string \<Rightarrow> string \<Rightarrow> error + string list" where
  "doc collection ident =
     (if stringIncludes ident ''//'' then
        Inl (FirestoreError
               (''Invalid segment ('' @ ident @ ''). Paths must not contain // in them.''))
      else
        (let path = collection # filter (\<lambda>seg. seg \<noteq> []) (splitSlash ident) in
         if even (length path) then Inr path
         else
           Inl (FirestoreError
                  (''Invalid document reference. Document references must have an even ''
                     @ ''number of segments, but '' @ joinSlash path @ '' has ''
                     @ showNat (length path) @ ''.''))))"

section \<open>The state the gateway works on\<close>

text \<open>
  The two Firestore collections, the provider's session (\<^verbatim>\<open>auth.currentUser\<close> and its
  cached id token) and \<^verbatim>\<open>navigator.userAgent\<close>. \<open>admins\<close> and \<open>auditLogs\<close> hold the
  documents of the two collections; documents of their subcollections are not part of the
  state. A document of \<^verbatim>\<open>auditLogs\<close> has an id that begins with the reading of the
  clock and a dash. The reading ends at the dash after its digits, so two such ids are
  equal exactly when the clock and the rest of the id are, and the id is kept as that
  pair. \<open>auditWrites\<close> is
  not in the source: it lists, in order, the documents that \<^verbatim>\<open>createAuditLog\<close> has sent
  to \<^verbatim>\<open>setDoc\<close>, so that the writes of one call can be counted whatever happens to the
  collection.
  Firestore and sign-out are taken to answer: a write that is sent reaches its document,
  and \<^verbatim>\<open>signOut\<close> does not throw. The id the provider gives a user is taken to be a
  document id, not empty and without \<^verbatim>\<open>/\<close>, so that \<^verbatim>\<open>doc(db, 'admins', uid)\<close> is the
  document \<open>uid\<close> of \<open>admins\<close>.
\<close>

record world =
  admins :: "string \<rightharpoonup> AdminDoc"
  auditLogs :: "(time \<times> string) \<rightharpoonup> AuditEntry"
  auditWrites :: "AuditEntry list"
  currentUser :: "FirebaseUser option"
  cachedToken :: "IdToken option"
  userAgent :: string

definition getAdminData :: "'a world_scheme \<Rightarrow> string \<Rightarrow> AdminUser option" where
  "getAdminData s k =
     (case admins s k of
        None \<Rightarrow> None
      | Some d \<Rightarrow>
          Some \<lparr>email = email d, name = name d, role = role d, isActive = isActive d,
                lastLogin = lastLogin d, loginAttempts = loginAttempts d,
                isLocked = isLocked d, lockedUntil = lockedUntil d,
                createdAt = createdAt d, updatedAt = updatedAt d, uid = k\<rparr>)"

text \<open>
  \<^verbatim>\<open>createAuditLog\<close> builds the reference \<^verbatim>\<open>doc(db, 'auditLogs', `${Date.now()}-${email}`)\<close>
  inside its \<^verbatim>\<open>try\<close>. When \<^verbatim>\<open>doc\<close> throws, the \<^verbatim>\<open>catch\<close> logs the error to the
  console and nothing is written. Otherwise the entry is sent to the reference. A
  reference of two segments is the document of \<^verbatim>\<open>auditLogs\<close> whose id is the digits of the
  clock, a dash and the e-mail up to its first \<^verbatim>\<open>/\<close> (lemma \<open>auditLog_id\<close> below), and
  \<^verbatim>\<open>setDoc\<close> replaces what that document held; a longer reference is outside the
  collection.
\<close>

definition createAuditLog ::
  "string \<Rightarrow> string \<Rightarrow> AuditStatus \<Rightarrow> string \<Rightarrow> time \<Rightarrow> 'a world_scheme \<Rightarrow> 'a world_scheme"
where
  "createAuditLog act em st rsn now s =
     (case doc ''auditLogs'' (showInt now @ ''-'' @ em) of
        Inl err \<Rightarrow> s
      | Inr path \<Rightarrow>
          (let entry = \<lparr>action = act, logEmail = em, ipAddress = ''unknown'',
                          logUserAgent = userAgent s, status = st, reason = rsn,
                          logTimestamp = now\<rparr>
           in s\<lparr>auditLogs :=
                   (if length path = 2
                    then (auditLogs s)((now, takeWhile (\<lambda>c. c \<noteq> CHR ''/'') em) \<mapsto> entry)
                    else auditLogs s),
                 auditWrites := auditWrites s @ [entry]\<rparr>))"

definition signIn :: "time \<Rightarrow> FirebaseUser \<Rightarrow> 'a world_scheme \<Rightarrow> 'a world_scheme" where
  "signIn now fu s = s\<lparr>currentUser := Some fu, cachedToken := Some (issueToken now fu)\<rparr>"

definition signOut :: "'a world_scheme \<Rightarrow> 'a world_scheme" where
  "signOut s = s\<lparr>currentUser := None, cachedToken := None\<rparr>"

text \<open>
  \<^verbatim>\<open>getIdToken(forceRefresh)\<close> of the signed-in user: the cached token, or a new one when
  the refresh is forced or the cached one has expired.
\<close>

definition getIdToken :: "bool \<Rightarrow> time \<Rightarrow> FirebaseUser \<Rightarrow> 'a world_scheme \<Rightarrow> IdToken \<times> 'a world_scheme" where
  "getIdToken forceRefresh now fu s =
     (case cachedToken s of
        Some tok \<Rightarrow>
          if forceRefresh \<or> expiresAt tok \<le> now
          then (issueToken now fu, s\<lparr>cachedToken := Some (issueToken now fu)\<rparr>)
          else (tok, s)
      | None \<Rightarrow> (issueToken now fu, s\<lparr>cachedToken := Some (issueToken now fu)\<rparr>))"

text \<open>
  \<^verbatim>\<open>updateDoc(doc(db, 'admins', k), fields)\<close>. The source calls it only on a document it
  has just read, so the document is there; on a missing document Firestore would throw,
  and the collection is left as it is.
\<close>

definition updateDoc :: "string \<Rightarrow> (AdminDoc \<Rightarrow> AdminDoc) \<Rightarrow> 'a world_scheme \<Rightarrow> 'a world_scheme" where
  "updateDoc k f s =
     (case admins s k of
        None \<Rightarrow> s
      | Some d \<Rightarrow> s\<lparr>admins := (admins s)(k \<mapsto> f d)\<rparr>)"

definition setDoc :: "string \<Rightarrow> AdminDoc \<Rightarrow> 'a world_scheme \<Rightarrow> 'a world_scheme" where
  "setDoc k d s = s\<lparr>admins := (admins s)(k \<mapsto> d)\<rparr>"

text \<open>JavaScript's \<^verbatim>\<open>x || y\<close> on a string that may be null: null and the empty string are falsy.\<close>

definition orElse :: "string option \<Rightarrow> string \<Rightarrow> string" where
  "orElse x y = (case x of None \<Rightarrow> y | Some v \<Rightarrow> if v = [] then y else v)"

section \<open>Login with e-mail and password\<close>

record LoginResponse =
  responseUser :: AdminUser
  responseToken :: IdToken

definition allowedAdminEmail :: string where
  "allowedAdminEmail = ''admin@ashraffurnitures.com''"

text \<open>\<^verbatim>\<open>Math.ceil((lockedUntil.getTime() - new Date().getTime()) / 1000 / 60)\<close>\<close>

definition remainingMinutes :: "time \<Rightarrow> time \<Rightarrow> int" where
  "remainingMinutes lockedUntilTime now = - ((- (lockedUntilTime - now)) div 60000)"

text \<open>The end of the \<^verbatim>\<open>try\<close> block, from "Reset login attempts and update last login".\<close>

definition loginWithEmail_reset ::
  "time \<Rightarrow> string \<Rightarrow> FirebaseUser \<Rightarrow> AdminUser \<Rightarrow> 'a world_scheme
     \<Rightarrow> (error + LoginResponse) \<times> 'a world_scheme"
where
  "loginWithEmail_reset now em firebaseUser adminData s =
     (let s1 = updateDoc (fbUid firebaseUser)
                 (\<lambda>d. d\<lparr>loginAttempts := 0, lastLogin := Some now, updatedAt := now\<rparr>) s;
          s2 = createAuditLog ''login_success'' em Success ''Successful login'' now s1;
          (tok, s3) = getIdToken False now firebaseUser s2
      in (Inr \<lparr>responseUser = adminData\<lparr>loginAttempts := 0, lastLogin := Some now\<rparr>,
                responseToken = tok\<rparr>, s3))"

text \<open>
  The \<^verbatim>\<open>try\<close> block. \<open>Inl\<close> is a throw, which the \<^verbatim>\<open>catch\<close> block below receives,
  whether it comes from the provider or from the block itself.
\<close>

definition loginWithEmail_try ::
  "(string \<Rightarrow> string \<Rightarrow> signInOutcome) \<Rightarrow> time \<Rightarrow> string \<Rightarrow> string \<Rightarrow> 'a world_scheme
     \<Rightarrow> (error + LoginResponse) \<times> 'a world_scheme"
where
  "loginWithEmail_try idp now em pw s =
     (case idp em pw of
        Inl (code, msg) \<Rightarrow> (Inl (AuthError code msg), s)
      | Inr firebaseUser \<Rightarrow>
          let s1 = signIn now firebaseUser s in
          if em \<noteq> allowedAdminEmail then
            (Inl (AccessDenied allowedAdminEmail),
             createAuditLog ''login_attempt'' em Blocked
               (''Access denied. Only '' @ allowedAdminEmail @ '' can login'') now (signOut s1))
          else
            (case getAdminData s1 (fbUid firebaseUser) of
               None \<Rightarrow>
                 (Inl NotAdmin,
                  createAuditLog ''login_attempt'' em Failed
                    ''User not found in admins collection'' now (signOut s1))
             | Some adminData \<Rightarrow>
                 if \<not> isActive adminData then
                   (Inl Inactive,
                    createAuditLog ''login_attempt'' em Blocked ''Account inactive'' now
                      (signOut s1))
                 else
                   (case (if isLocked adminData then lockedUntil adminData else None) of
                      Some lockedUntilTime \<Rightarrow>
                        if lockedUntilTime > now then
                          (Inl (Locked (remainingMinutes lockedUntilTime now)),
                           createAuditLog ''login_attempt'' em Blocked
                             (''Account locked for ''
                                @ showInt (remainingMinutes lockedUntilTime now) @ '' minutes'')
                             now (signOut s1))
                        else
                          loginWithEmail_reset now em firebaseUser adminData
                            (updateDoc (fbUid firebaseUser)
                               (\<lambda>d. d\<lparr>isLocked := False, lockedUntil := None,
                                       loginAttempts := 0, updatedAt := now\<rparr>) s1)
                    | None \<Rightarrow> loginWithEmail_reset now em firebaseUser adminData s1)))"

text \<open>
  The \<^verbatim>\<open>catch\<close> block. Only the provider's error has a \<^verbatim>\<open>code\<close> that the block
  tests. The document read is \<^verbatim>\<open>doc(db, 'admins', email)\<close>: the id looked up is the
  e-mail, and \<^verbatim>\<open>usersSnapshot.id\<close>, the last segment of the reference, is the id of the
  document updated. The gateway writes no document to a subcollection of \<^verbatim>\<open>admins\<close>,
  and a reference of more than two segments is taken to find none. The two errors thrown
  at the end of the inner \<^verbatim>\<open>try\<close> both have a message that includes \<^verbatim>\<open>'attempts'\<close>, so
  the inner \<^verbatim>\<open>catch\<close> rethrows them; it rethrows the error of \<^verbatim>\<open>doc\<close> when its message,
  which quotes the e-mail, includes that word, and otherwise goes on to the entry
  \<^verbatim>\<open>Invalid credentials\<close>.
\<close>

definition loginWithEmail_catch ::
  "time \<Rightarrow> string \<Rightarrow> error \<Rightarrow> 'a world_scheme \<Rightarrow> (error + LoginResponse) \<times> 'a world_scheme"
where
  "loginWithEmail_catch now em err s =
     (case err of
        AuthError code msg \<Rightarrow>
          if code = ''auth/wrong-password'' \<or> code = ''auth/invalid-credential'' then
            (case doc ''admins'' em of
               Inl innerError \<Rightarrow>
                 if stringIncludes (message innerError) ''attempts'' then (Inl innerError, s)
                 else
                   (Inl InvalidCredentials,
                    createAuditLog ''login_attempt'' em Failed ''Invalid credentials'' now s)
             | Inr path \<Rightarrow>
                 (case (if length path = 2 then admins s (last path) else None) of
                    Some adminData \<Rightarrow>
                      let attempts = loginAttempts adminData + 1 in
                      if attempts \<ge> 5 then
                        (Inl TooManyAttempts,
                         createAuditLog ''login_attempt'' em Blocked
                           ''Account locked after 5 failed attempts'' now
                           (updateDoc (last path)
                              (\<lambda>d. d\<lparr>isLocked := True,
                                      lockedUntil := Some (now + 15 * 60 * 1000),
                                      loginAttempts := attempts, updatedAt := now\<rparr>) s))
                      else
                        (Inl (InvalidPassword (5 - attempts)),
                         createAuditLog ''login_attempt'' em Failed
                           (''Invalid password ('' @ showNat (5 - attempts) @ '' attempts left)'')
                           now
                           (updateDoc (last path)
                              (\<lambda>d. d\<lparr>loginAttempts := attempts, updatedAt := now\<rparr>) s))
                  | None \<Rightarrow>
                      (Inl InvalidCredentials,
                       createAuditLog ''login_attempt'' em Failed ''Invalid credentials'' now s)))
          else
            (Inl err, createAuditLog ''login_attempt'' em Failed (message err) now s)
      | _ \<Rightarrow> (Inl err, createAuditLog ''login_attempt'' em Failed (message err) now s))"

definition loginWithEmail ::
  "(string \<Rightarrow> string \<Rightarrow> signInOutcome) \<Rightarrow> time \<Rightarrow> string \<Rightarrow> string \<Rightarrow> 'a world_scheme
     \<Rightarrow> (error + LoginResponse) \<times> 'a world_scheme"
where
  "loginWithEmail idp now em pw s =
     (case loginWithEmail_try idp now em pw s of
        (Inl err, s') \<Rightarrow> loginWithEmail_catch now em err s'
      | (Inr response, s') \<Rightarrow> (Inr response, s'))"

section \<open>Login with Google\<close>

text \<open>
  \<^verbatim>\<open>import.meta.env.VITE_ADMIN_EMAIL\<close> is a parameter: a string, or undefined. The check
  \<^verbatim>\<open>allowedAdminEmail && firebaseUser.email !== allowedAdminEmail\<close> is skipped when it is
  undefined or empty.
\<close>

definition emailNotAllowed :: "string option \<Rightarrow> FirebaseUser \<Rightarrow> bool" where
  "emailNotAllowed env firebaseUser =
     (case env of
        None \<Rightarrow> False
      | Some allowed \<Rightarrow> allowed \<noteq> [] \<and> fbEmail firebaseUser \<noteq> Some allowed)"

text \<open>The document written for a first-time login, and the \<^verbatim>\<open>adminData\<close> built beside it.\<close>

definition newAdminData :: "time \<Rightarrow> FirebaseUser \<Rightarrow> AdminDoc" where
  "newAdminData now firebaseUser =
     \<lparr>email = orElse (fbEmail firebaseUser) [],
      name = orElse (displayName firebaseUser) ''Admin User'',
      role = Admin, isActive = True, lastLogin = Some now, loginAttempts = 0,
      isLocked = False, lockedUntil = None, createdAt = now, updatedAt = now\<rparr>"

definition newAdminUser :: "time \<Rightarrow> FirebaseUser \<Rightarrow> AdminUser" where
  "newAdminUser now firebaseUser =
     \<lparr>email = orElse (fbEmail firebaseUser) [],
      name = orElse (displayName firebaseUser) ''Admin User'',
      role = Admin, isActive = True, lastLogin = Some now, loginAttempts = 0,
      isLocked = False, lockedUntil = None, createdAt = now, updatedAt = now,
      uid = fbUid firebaseUser\<rparr>"

definition loginWithGoogle_token ::
  "time \<Rightarrow> FirebaseUser \<Rightarrow> AdminUser \<Rightarrow> 'a world_scheme
     \<Rightarrow> (error + LoginResponse) \<times> 'a world_scheme"
where
  "loginWithGoogle_token now firebaseUser adminData s =
     (let (tok, s1) = getIdToken False now firebaseUser s
      in (Inr \<lparr>responseUser = adminData\<lparr>lastLogin := Some now\<rparr>, responseToken = tok\<rparr>, s1))"

definition loginWithGoogle_try ::
  "string option \<Rightarrow> signInOutcome \<Rightarrow> time \<Rightarrow> 'a world_scheme
     \<Rightarrow> (error + LoginResponse) \<times> 'a world_scheme"
where
  "loginWithGoogle_try env popup now s =
     (case popup of
        Inl (code, msg) \<Rightarrow> (Inl (AuthError code msg), s)
      | Inr firebaseUser \<Rightarrow>
          let s1 = signIn now firebaseUser s in
          if emailNotAllowed env firebaseUser then
            (Inl (AccessDenied (orElse env [])),
             createAuditLog ''google_oauth'' (orElse (fbEmail firebaseUser) ''unknown'') Blocked
               (''Email not allowed. Only '' @ orElse env [] @ '' can login'') now (signOut s1))
          else
            (case getAdminData s1 (fbUid firebaseUser) of
               None \<Rightarrow>
                 loginWithGoogle_token now firebaseUser (newAdminUser now firebaseUser)
                   (createAuditLog ''google_oauth'' (orElse (fbEmail firebaseUser) ''unknown'')
                      Success ''First-time Google OAuth login'' now
                      (setDoc (fbUid firebaseUser) (newAdminData now firebaseUser) s1))
             | Some adminData \<Rightarrow>
                 if \<not> isActive adminData then
                   (Inl Inactive,
                    createAuditLog ''google_oauth'' (orElse (fbEmail firebaseUser) ''unknown'')
                      Blocked ''Account inactive'' now (signOut s1))
                 else
                   loginWithGoogle_token now firebaseUser adminData
                     (createAuditLog ''google_oauth''
                        (orElse (fbEmail firebaseUser) ''unknown'') Success
                        ''Successful Google OAuth login'' now
                        (updateDoc (fbUid firebaseUser)
                           (\<lambda>d. d\<lparr>lastLogin := Some now, updatedAt := now\<rparr>) s1))))"

definition loginWithGoogle_catch ::
  "time \<Rightarrow> error \<Rightarrow> 'a world_scheme \<Rightarrow> (error + LoginResponse) \<times> 'a world_scheme"
where
  "loginWithGoogle_catch now err s =
     (case err of
        AuthError code msg \<Rightarrow>
          if code = ''auth/popup-closed-by-user'' \<or> code = ''auth/cancelled-popup-request''
          then (Inl SignInCancelled, s)
          else (Inl err, createAuditLog ''google_oauth'' ''unknown'' Failed (message err) now s)
      | _ \<Rightarrow> (Inl err, createAuditLog ''google_oauth'' ''unknown'' Failed (message err) now s))"

definition loginWithGoogle ::
  "string option \<Rightarrow> signInOutcome \<Rightarrow> time \<Rightarrow> 'a world_scheme
     \<Rightarrow> (error + LoginResponse) \<times> 'a world_scheme"
where
  "loginWithGoogle env popup now s =
     (case loginWithGoogle_try env popup now s of
        (Inl err, s') \<Rightarrow> loginWithGoogle_catch now err s'
      | (Inr response, s') \<Rightarrow> (Inr response, s'))"

section \<open>Logout and the observer of the authentication state\<close>

text \<open>\<^verbatim>\<open>logout\<close> of the authentication service, which the store imports as \<^verbatim>\<open>firebaseLogout\<close>.\<close>

definition firebaseLogout :: "time \<Rightarrow> 'a world_scheme \<Rightarrow> 'a world_scheme" where
  "firebaseLogout now s =
     (case currentUser s of
        None \<Rightarrow> signOut s
      | Some firebaseUser \<Rightarrow>
          if orElse (fbEmail firebaseUser) [] \<noteq> [] then
            signOut (createAuditLog ''logout'' (orElse (fbEmail firebaseUser) []) Success
                       ''User logged out'' now s)
          else signOut s)"

text \<open>
  The observer that \<^verbatim>\<open>onAuthChange\<close> registers with \<^verbatim>\<open>onAuthStateChanged\<close>. The provider
  calls it with \<^verbatim>\<open>auth.currentUser\<close>; the result is the argument it passes to \<^verbatim>\<open>callback\<close>.
\<close>

definition onAuthChange ::
  "string option \<Rightarrow> time \<Rightarrow> 'a world_scheme \<Rightarrow> AdminUser option \<times> 'a world_scheme"
where
  "onAuthChange env now s =
     (case currentUser s of
        None \<Rightarrow> (None, s)
      | Some firebaseUser \<Rightarrow>
          if emailNotAllowed env firebaseUser then (None, signOut s)
          else
            (let (adminData, s1) =
               (case getAdminData s (fbUid firebaseUser) of
                  None \<Rightarrow>
                    (newAdminUser now firebaseUser,
                     createAuditLog ''auth_state_change''
                       (orElse (fbEmail firebaseUser) ''unknown'') Success
                       ''First-time login - admin account created'' now
                       (setDoc (fbUid firebaseUser) (newAdminData now firebaseUser) s))
                | Some existing \<Rightarrow> (existing, s))
             in if \<not> isActive adminData then (None, signOut s1)
                else (Some adminData, s1)))"

section \<open>The attempt rate limiter of the login page\<close>

record LoginAttempt =
  timestamp :: time
  attemptEmail :: string

definition RATE_LIMIT_MAX_ATTEMPTS :: nat where
  "RATE_LIMIT_MAX_ATTEMPTS = 5"

definition RATE_LIMIT_WINDOW_MS :: time where
  "RATE_LIMIT_WINDOW_MS = 15 * 60 * 1000"

record RateLimitCheck =
  allowed :: bool
  remainingTime :: "time option"

text \<open>
  The item \<^verbatim>\<open>login_attempts\<close> of \<^verbatim>\<open>localStorage\<close> is a list of attempts, or absent;
  \<^verbatim>\<open>stored ? JSON.parse(stored) : []\<close> reads it.
\<close>

definition parseStored :: "LoginAttempt list option \<Rightarrow> LoginAttempt list" where
  "parseStored stored = (case stored of None \<Rightarrow> [] | Some attempts \<Rightarrow> attempts)"

text \<open>
  \<^verbatim>\<open>emailAttempts[0]\<close> is read only when the list has at least
  \<open>RATE_LIMIT_MAX_ATTEMPTS\<close> elements.
\<close>

definition checkRateLimit :: "LoginAttempt list option \<Rightarrow> string \<Rightarrow> time \<Rightarrow> RateLimitCheck" where
  "checkRateLimit stored em now =
     (let attempts = parseStored stored;
          recentAttempts = filter (\<lambda>attempt. now - timestamp attempt < RATE_LIMIT_WINDOW_MS) attempts;
          emailAttempts = filter (\<lambda>attempt. attemptEmail attempt = em) recentAttempts
      in if length emailAttempts \<ge> RATE_LIMIT_MAX_ATTEMPTS then
           (let oldestAttempt = emailAttempts ! 0
            in \<lparr>allowed = False,
                remainingTime = Some (RATE_LIMIT_WINDOW_MS - (now - timestamp oldestAttempt))\<rparr>)
         else \<lparr>allowed = True, remainingTime = None\<rparr>)"

definition recordLoginAttempt :: "LoginAttempt list option \<Rightarrow> string \<Rightarrow> time \<Rightarrow> LoginAttempt list option" where
  "recordLoginAttempt stored em now =
     (let attempts = parseStored stored @ [\<lparr>timestamp = now, attemptEmail = em\<rparr>];
          recentAttempts = filter (\<lambda>attempt. now - timestamp attempt < RATE_LIMIT_WINDOW_MS) attempts
      in Some recentAttempts)"

definition clearLoginAttempts :: "LoginAttempt list option \<Rightarrow> string \<Rightarrow> LoginAttempt list option" where
  "clearLoginAttempts stored em =
     Some (filter (\<lambda>attempt. attemptEmail attempt \<noteq> em) (parseStored stored))"

section \<open>The authentication store and its refresh timer\<close>

text \<open>
  \<^verbatim>\<open>User\<close> of the store. Its \<^verbatim>\<open>avatar\<close>, a link computed from the name, is left out.
\<close>

record User =
  userId :: string
  userEmail :: string
  userName :: string
  userRole :: AdminRole

definition adminUserToUser :: "AdminUser \<Rightarrow> User" where
  "adminUserToUser adminUser =
     \<lparr>userId = uid adminUser, userEmail = email adminUser, userName = name adminUser,
      userRole = role adminUser\<rparr>"

text \<open>
  The client beside the backend: the fields of the store, the module variables of the
  store (\<^verbatim>\<open>isInitializing\<close>, \<^verbatim>\<open>hasInitialized\<close>, \<^verbatim>\<open>tokenRefreshInterval\<close>), the item
  \<^verbatim>\<open>login_attempts\<close> of \<^verbatim>\<open>localStorage\<close>, and the interval timers of the JavaScript
  runtime that the store has started and not cleared: each with its id and the time of
  its next call. The runtime hands out ids greater than zero, counting up.
\<close>

record app = world +
  user :: "User option"
  token :: "IdToken option"
  isAuthenticated :: bool
  loading :: bool
  isInitializing :: bool
  hasInitialized :: bool
  tokenRefreshInterval :: "nat option"
  intervals :: "(nat \<times> time) list"
  nextTimerId :: nat
  login_attempts :: "LoginAttempt list option"

text \<open>The only delay the store passes to \<^verbatim>\<open>setInterval\<close>: \<^verbatim>\<open>45 * 60 * 1000\<close>.\<close>

definition refreshDelay :: time where
  "refreshDelay = 45 * 60 * 1000"

definition setInterval :: "time \<Rightarrow> app \<Rightarrow> nat \<times> app" where
  "setInterval now s =
     (nextTimerId s,
      s\<lparr>intervals := intervals s @ [(nextTimerId s, now + refreshDelay)],
        nextTimerId := nextTimerId s + 1\<rparr>)"

definition clearInterval :: "nat \<Rightarrow> app \<Rightarrow> app" where
  "clearInterval i s = s\<lparr>intervals := filter (\<lambda>timer. fst timer \<noteq> i) (intervals s)\<rparr>"

text \<open>\<^verbatim>\<open>if (tokenRefreshInterval)\<close> holds for an id that is neither null nor zero.\<close>

definition setupTokenRefresh :: "time \<Rightarrow> app \<Rightarrow> app" where
  "setupTokenRefresh now s =
     (let s1 = (case tokenRefreshInterval s of
                  None \<Rightarrow> s
                | Some i \<Rightarrow> if i \<noteq> 0 then clearInterval i s else s);
          (i, s2) = setInterval now s1
      in s2\<lparr>tokenRefreshInterval := Some i\<rparr>)"

definition clearTokenRefresh :: "app \<Rightarrow> app" where
  "clearTokenRefresh s =
     (case tokenRefreshInterval s of
        None \<Rightarrow> s
      | Some i \<Rightarrow>
          if i \<noteq> 0 then (clearInterval i s)\<lparr>tokenRefreshInterval := None\<rparr> else s)"

text \<open>
  The callback of the interval. \<open>ok now\<close> says whether the provider answers
  \<^verbatim>\<open>getIdToken(true)\<close> at that time; when it does not, the callback logs the error and
  leaves the store as it is.
\<close>

definition refreshCallback :: "(time \<Rightarrow> bool) \<Rightarrow> time \<Rightarrow> app \<Rightarrow> app" where
  "refreshCallback ok now s =
     (case currentUser s of
        None \<Rightarrow> s
      | Some firebaseUser \<Rightarrow>
          if ok now then
            (let (newToken, s1) = getIdToken True now firebaseUser s
             in s1\<lparr>token := Some newToken\<rparr>)
          else s)"

text \<open>
  The store's actions. An action that fails rethrows \<^verbatim>\<open>new Error(error.message || ...)\<close>:
  what is left of the error is its message.
\<close>

definition login ::
  "(string \<Rightarrow> string \<Rightarrow> signInOutcome) \<Rightarrow> time \<Rightarrow> string \<Rightarrow> string \<Rightarrow> app \<Rightarrow> (string + unit) \<times> app"
where
  "login idp now em pw s =
     (case loginWithEmail idp now em pw (s\<lparr>loading := True\<rparr>) of
        (Inr response, s1) \<Rightarrow>
          (Inr (),
           setupTokenRefresh now
             (s1\<lparr>user := Some (adminUserToUser (responseUser response)),
                 token := Some (responseToken response),
                 isAuthenticated := True, loading := False\<rparr>))
      | (Inl err, s1) \<Rightarrow>
          (Inl (if message err = [] then ''Login failed'' else message err),
           s1\<lparr>loading := False\<rparr>))"

definition loginWithGoogle_store ::
  "string option \<Rightarrow> signInOutcome \<Rightarrow> time \<Rightarrow> app \<Rightarrow> (string + unit) \<times> app"
where
  "loginWithGoogle_store env popup now s =
     (case loginWithGoogle env popup now (s\<lparr>loading := True\<rparr>) of
        (Inr response, s1) \<Rightarrow>
          (Inr (),
           setupTokenRefresh now
             (s1\<lparr>user := Some (adminUserToUser (responseUser response)),
                 token := Some (responseToken response),
                 isAuthenticated := True, loading := False\<rparr>))
      | (Inl err, s1) \<Rightarrow>
          (Inl (if message err = [] then ''Google login failed'' else message err),
           s1\<lparr>loading := False\<rparr>))"

definition logout :: "time \<Rightarrow> app \<Rightarrow> app" where
  "logout now s =
     (let s1 = clearTokenRefresh s;
          s2 = firebaseLogout now s1
      in s2\<lparr>user := None, token := None, isAuthenticated := False\<rparr>)"

text \<open>
  The callback that \<^verbatim>\<open>initializeAuth\<close> passes to \<^verbatim>\<open>onAuthChange\<close>, run after the observer
  of the authentication service.
\<close>

definition authChanged :: "string option \<Rightarrow> time \<Rightarrow> app \<Rightarrow> app" where
  "authChanged env now s =
     (case onAuthChange env now s of
        (Some adminUser, s1) \<Rightarrow>
          (let (tok, s2) =
             (case currentUser s1 of
                None \<Rightarrow> (None, s1)
              | Some firebaseUser \<Rightarrow>
                  (let (t, s') = getIdToken False now firebaseUser s1 in (Some t, s')))
           in setupTokenRefresh now
                (s2\<lparr>user := Some (adminUserToUser adminUser), token := tok,
                    isAuthenticated := True, loading := False\<rparr>))
      | (None, s1) \<Rightarrow>
          (clearTokenRefresh s1)
            \<lparr>user := None, token := None, isAuthenticated := False, loading := False\<rparr>)"

section \<open>The passing of time\<close>

text \<open>
  The runtime calls the callback of an interval timer when its time has come, and again
  after every further delay. \<open>advanceTo ok t\<close> makes every call that is due up to the
  time \<open>t\<close>, the earliest first: \<open>nextDue\<close> finds the timer, \<open>reschedule\<close> sets its
  next call one delay later, and the callback runs at the time the call was due.
\<close>

fun nextDue :: "time \<Rightarrow> (nat \<times> time) list \<Rightarrow> (nat \<times> time) option" where
  "nextDue t [] = None"
| "nextDue t (timer # timers) =
     (case nextDue t timers of
        None \<Rightarrow> if snd timer \<le> t then Some timer else None
      | Some other \<Rightarrow> if snd timer \<le> snd other then Some timer else Some other)"

fun reschedule :: "(nat \<times> time) \<Rightarrow> (nat \<times> time) list \<Rightarrow> (nat \<times> time) list" where
  "reschedule timer [] = []"
| "reschedule timer (x # xs) =
     (if x = timer then (fst x, snd x + refreshDelay) # xs else x # reschedule timer xs)"

text \<open>The calls still to make up to \<open>t\<close> are bounded by \<open>pending\<close>, which every call lowers.\<close>

definition pending :: "time \<Rightarrow> (nat \<times> time) list \<Rightarrow> nat" where
  "pending t timers = sum_list (map (\<lambda>timer. nat (t + 1 - snd timer)) timers)"

function advanceTo :: "(time \<Rightarrow> bool) \<Rightarrow> time \<Rightarrow> app \<Rightarrow> app" where
  "advanceTo ok t s =
     (case nextDue t (intervals s) of
        None \<Rightarrow> s
      | Some timer \<Rightarrow>
          advanceTo ok t
            (refreshCallback ok (snd timer) (s\<lparr>intervals := reschedule timer (intervals s)\<rparr>)))"
  by pat_completeness auto

termination
proof (relation "measure (\<lambda>(ok, t, s). pending t (intervals s))")
  show "wf (measure (\<lambda>(ok, t, s). pending t (intervals s)))"
    by simp
next
  fix ok :: "time \<Rightarrow> bool" and t :: time and s :: app and timer
  assume due: "nextDue t (intervals s) = Some timer"
  have found: "x \<in> set timers \<and> snd x \<le> t"
    if "nextDue t timers = Some x" for timers x
    using that by (induction timers arbitrary: x) (auto split: option.splits if_splits)
  have lower: "pending t (reschedule x timers) < pending t timers"
    if "x \<in> set timers" and "snd x \<le> t" for timers x
    using that by (induction timers) (auto simp: pending_def refreshDelay_def)
  have same: "intervals (refreshCallback ok (snd timer) s') = intervals s'" for s'
    by (auto simp: refreshCallback_def getIdToken_def split: option.splits)
  show "((ok, t,
          refreshCallback ok (snd timer) (s\<lparr>intervals := reschedule timer (intervals s)\<rparr>)),
         (ok, t, s)) \<in> measure (\<lambda>(ok, t, s). pending t (intervals s))"
    using found [OF due] lower by (simp add: same)
qed

declare advanceTo.simps [simp del]

section \<open>The login page\<close>

text \<open>
  \<^verbatim>\<open>handleLogin\<close> and \<^verbatim>\<open>handleGoogleLogin\<close>, without the fields they show.
  \<^verbatim>\<open>!email.trim()\<close> holds when the e-mail is white space only. Of the code units below
  256, \<^verbatim>\<open>trim\<close> strips the space, the tab, the line feed, the vertical tab, the form
  feed, the carriage return and the no-break space.
\<close>

datatype loginOutcome =
    EmailRequired
  | PasswordRequired
  | RateLimited time
  | LoginFailed string
  | LoggedIn

definition isSpace :: "char \<Rightarrow> bool" where
  "isSpace c =
     (c \<in> set [CHR '' '', CHR 0x09, CHR 0x0A, CHR 0x0B, CHR 0x0C, CHR 0x0D, CHR 0xA0])"

definition handleLogin ::
  "(string \<Rightarrow> string \<Rightarrow> signInOutcome) \<Rightarrow> time \<Rightarrow> string \<Rightarrow> string \<Rightarrow> app \<Rightarrow> loginOutcome \<times> app"
where
  "handleLogin idp now em pw s =
     (if filter (\<lambda>c. \<not> isSpace c) em = [] then (EmailRequired, s)
      else if pw = [] then (PasswordRequired, s)
      else
        (let rateLimitCheck = checkRateLimit (login_attempts s) em now in
         if \<not> allowed rateLimitCheck then
           (RateLimited (case remainingTime rateLimitCheck of None \<Rightarrow> 0 | Some r \<Rightarrow> r), s)
         else
           (case login idp now em pw
                   (s\<lparr>login_attempts := recordLoginAttempt (login_attempts s) em now\<rparr>) of
              (Inr u, s1) \<Rightarrow>
                (LoggedIn, s1\<lparr>login_attempts := clearLoginAttempts (login_attempts s1) em\<rparr>)
            | (Inl msg, s1) \<Rightarrow> (LoginFailed msg, s1))))"

definition handleGoogleLogin ::
  "string option \<Rightarrow> signInOutcome \<Rightarrow> time \<Rightarrow> app \<Rightarrow> loginOutcome \<times> app"
where
  "handleGoogleLogin env popup now s =
     (let googleIdentifier = ''google_oauth'';
          rateLimitCheck = checkRateLimit (login_attempts s) googleIdentifier now in
      if \<not> allowed rateLimitCheck then
        (RateLimited (case remainingTime rateLimitCheck of None \<Rightarrow> 0 | Some r \<Rightarrow> r), s)
      else
        (case loginWithGoogle_store env popup now
                (s\<lparr>login_attempts :=
                     recordLoginAttempt (login_attempts s) googleIdentifier now\<rparr>) of
           (Inr u, s1) \<Rightarrow>
             (LoggedIn,
              s1\<lparr>login_attempts := clearLoginAttempts (login_attempts s1) googleIdentifier\<rparr>)
         | (Inl msg, s1) \<Rightarrow> (LoginFailed msg, s1)))"

section \<open>Predicates of the properties\<close>

text \<open>A call that returns, rather than throws.\<close>

definition succeeded :: "'e + 'a \<Rightarrow> bool" where
  "succeeded r = (case r of Inl e \<Rightarrow> False | Inr v \<Rightarrow> True)"

text \<open>
  The lists the login page stores: the item is absent at first, \<^verbatim>\<open>recordLoginAttempt\<close>
  writes it with the reading of a clock that does not run backwards, and
  \<^verbatim>\<open>clearLoginAttempts\<close> writes it.
\<close>

inductive storedAttempts :: "LoginAttempt list option \<Rightarrow> bool" where
  absent: "storedAttempts None"
| recorded:
    "storedAttempts stored \<Longrightarrow> \<forall>a \<in> set (parseStored stored). timestamp a \<le> now
       \<Longrightarrow> storedAttempts (recordLoginAttempt stored em now)"
| cleared: "storedAttempts stored \<Longrightarrow> storedAttempts (clearLoginAttempts stored em)"

text \<open>
  The invariant of the store's timer: the runtime hands out ids greater than zero, and
  the interval timers alive are the one whose id \<^verbatim>\<open>tokenRefreshInterval\<close> holds, or none
  when it is null.
\<close>

definition timerInv :: "app \<Rightarrow> bool" where
  "timerInv s =
     (0 < nextTimerId s \<and> tokenRefreshInterval s \<noteq> Some 0 \<and>
      map fst (intervals s) =
        (case tokenRefreshInterval s of None \<Rightarrow> [] | Some i \<Rightarrow> [i]))"

text \<open>
  What it is for the session that a login has issued at \<open>t0\<close> to be kept fresh, seen at
  the time \<open>t\<close>: one timer is alive, first due at \<open>t0 + refreshDelay\<close>; the token in the
  store expires at \<open>t0 + tokenLifetime\<close>; before the timer is due the token is still that
  one; from the first call of the timer to the second it is the token issued at
  \<open>t0 + refreshDelay\<close>; and at \<open>t\<close> the token in the store has not expired.
\<close>

definition keptFresh :: "(time \<Rightarrow> bool) \<Rightarrow> time \<Rightarrow> time \<Rightarrow> app \<Rightarrow> bool" where
  "keptFresh ok t0 t s =
     (map snd (intervals s) = [t0 + refreshDelay]
      \<and> (\<exists>tok. token s = Some tok \<and> expiresAt tok = t0 + tokenLifetime)
      \<and> (t < t0 + refreshDelay \<longrightarrow> token (advanceTo ok t s) = token s)
      \<and> (t0 + refreshDelay \<le> t \<and> t < t0 + 2 * refreshDelay \<longrightarrow>
            (\<exists>tok. token (advanceTo ok t s) = Some tok
                \<and> expiresAt tok = t0 + refreshDelay + tokenLifetime))
      \<and> (\<exists>tok. token (advanceTo ok t s) = Some tok \<and> t < expiresAt tok))"

text \<open>
  What happens to the client, each event at its time: a login with the password or with
  Google from the login page, a logout, a call of the observer of the authentication
  state. The timers that have come due by then are called first.
\<close>

datatype event =
    HandleLogin "string \<Rightarrow> string \<Rightarrow> signInOutcome" string string
  | HandleGoogleLogin signInOutcome
  | Logout
  | AuthChanged

fun step :: "string option \<Rightarrow> (time \<Rightarrow> bool) \<Rightarrow> app \<Rightarrow> time \<times> event \<Rightarrow> app" where
  "step env ok s (now, HandleLogin idp em pw) =
     snd (handleLogin idp now em pw (advanceTo ok now s))"
| "step env ok s (now, HandleGoogleLogin popup) =
     snd (handleGoogleLogin env popup now (advanceTo ok now s))"
| "step env ok s (now, Logout) = logout now (advanceTo ok now s)"
| "step env ok s (now, AuthChanged) = authChanged env now (advanceTo ok now s)"


text \<open>
  The invariant of the data model, on a document and on the directory: a locked account
  has a \<open>lockedUntil\<close>.
\<close>

definition wellLocked :: "AdminDoc \<Rightarrow> bool" where
  "wellLocked d = (isLocked d \<longrightarrow> lockedUntil d \<noteq> None)"

definition directoryInv :: "'a world_scheme \<Rightarrow> bool" where
  "directoryInv s = (\<forall>k d. admins s k = Some d \<longrightarrow> wellLocked d)"

section \<open>Accounts, providers and states of the examples\<close>

text \<open>
  One administrator, whose document has the id the provider gave the user, as the setup
  guides of the repository prescribe and as \<^verbatim>\<open>createAdmin\<close> and \<^verbatim>\<open>loginWithGoogle\<close> write
  it. The provider accepts the password \<^verbatim>\<open>secret\<close> and answers any other with
  \<^verbatim>\<open>auth/invalid-credential\<close>.
\<close>

definition exampleUser :: FirebaseUser where
  "exampleUser = \<lparr>fbUid = ''uid-1'', fbEmail = Some allowedAdminEmail, displayName = None\<rparr>"

definition exampleIdp :: "string \<Rightarrow> string \<Rightarrow> signInOutcome" where
  "exampleIdp em pw =
     (if em = allowedAdminEmail \<and> pw = ''secret'' then Inr exampleUser
      else Inl (''auth/invalid-credential'', ''Firebase: Error (auth/invalid-credential).''))"

definition exampleAdmin :: AdminDoc where
  "exampleAdmin =
     \<lparr>email = allowedAdminEmail, name = ''Admin User'', role = Admin, isActive = True,
      lastLogin = None, loginAttempts = 0, isLocked = False, lockedUntil = None,
      createdAt = 0, updatedAt = 0\<rparr>"

definition worldWith :: "AdminDoc \<Rightarrow> world" where
  "worldWith d =
     \<lparr>admins = [''uid-1'' \<mapsto> d], auditLogs = Map.empty, auditWrites = [],
      currentUser = None, cachedToken = None, userAgent = ''Mozilla/5.0''\<rparr>"

text \<open>
  The client before anyone has logged in, over a directory that holds one account, with
  the given item \<^verbatim>\<open>login_attempts\<close>.
\<close>

definition appWith :: "AdminDoc \<Rightarrow> LoginAttempt list option \<Rightarrow> app" where
  "appWith d stored =
     \<lparr>admins = [''uid-1'' \<mapsto> d], auditLogs = Map.empty, auditWrites = [],
      currentUser = None, cachedToken = None, userAgent = ''Mozilla/5.0'',
      user = None, token = None, isAuthenticated = False, loading = True,
      isInitializing = False, hasInitialized = False, tokenRefreshInterval = None,
      intervals = [], nextTimerId = 1, login_attempts = stored\<rparr>"

text \<open>
  Accounts: one with four failed attempts on record and a lock that ran out at 500, one
  locked until 900000, one deactivated.
\<close>

definition staleAdmin :: AdminDoc where
  "staleAdmin = exampleAdmin\<lparr>loginAttempts := 4, isLocked := True, lockedUntil := Some 500\<rparr>"

definition lockedAdmin :: AdminDoc where
  "lockedAdmin = exampleAdmin\<lparr>loginAttempts := 5, isLocked := True, lockedUntil := Some 900000\<rparr>"

definition inactiveAdmin :: AdminDoc where
  "inactiveAdmin = exampleAdmin\<lparr>isActive := False\<rparr>"

text \<open>An account with three failed attempts on record, flagged locked with no \<open>lockedUntil\<close>.\<close>

definition flaggedAdmin :: AdminDoc where
  "flaggedAdmin = exampleAdmin\<lparr>loginAttempts := 3, isLocked := True, lockedUntil := None\<rparr>"

text \<open>
  A directory that holds the administrator's document under the e-mail as well, with four
  failed attempts counted.
\<close>

definition countedWorld :: world where
  "countedWorld =
     (worldWith exampleAdmin)
       \<lparr>admins := [''uid-1'' \<mapsto> exampleAdmin,
                   allowedAdminEmail \<mapsto> exampleAdmin\<lparr>loginAttempts := 4\<rparr>]\<rparr>"

text \<open>
  A Google user the directory has never seen, and the state in which the provider has
  signed that user in.
\<close>

definition strangerUser :: FirebaseUser where
  "strangerUser =
     \<lparr>fbUid = ''uid-2'', fbEmail = Some ''someone@gmail.com'', displayName = Some ''Someone''\<rparr>"

definition strangerSignedIn :: world where
  "strangerSignedIn = signIn 500 strangerUser (worldWith exampleAdmin)"



text \<open>Six attempts recorded in the first five seconds, five of them for \<^verbatim>\<open>b@x.com\<close>.\<close>

definition fiveAttempts :: "LoginAttempt list option" where
  "fiveAttempts =
     recordLoginAttempt (recordLoginAttempt (recordLoginAttempt (recordLoginAttempt
       (recordLoginAttempt (recordLoginAttempt None ''b@x.com'' 0) ''a@x.com'' 1000)
          ''b@x.com'' 2000) ''b@x.com'' 3000) ''b@x.com'' 4000) ''b@x.com'' 5000"

text \<open>
  Five attempts for \<^verbatim>\<open>b@x.com\<close> that the login page has recorded while the clock read
  5000, then 0 after it was set back, then 2000, 3000 and 4000.
\<close>

definition steppedBackAttempts :: "LoginAttempt list option" where
  "steppedBackAttempts =
     recordLoginAttempt (recordLoginAttempt (recordLoginAttempt (recordLoginAttempt
       (recordLoginAttempt None ''b@x.com'' 5000) ''b@x.com'' 0) ''b@x.com'' 2000)
          ''b@x.com'' 3000) ''b@x.com'' 4000"

text \<open>One login after the other, at the given times.\<close>

fun repeatLogin ::
  "(string \<Rightarrow> string \<Rightarrow> signInOutcome) \<Rightarrow> string \<Rightarrow> string \<Rightarrow> time list
     \<Rightarrow> 'a world_scheme \<Rightarrow> 'a world_scheme"
where
  "repeatLogin idp em pw [] s = s"
| "repeatLogin idp em pw (now # later) s =
     repeatLogin idp em pw later (snd (loginWithEmail idp now em pw s))"

text \<open>Five logins of the administrator with a wrong password.\<close>

definition afterFiveFailures :: world where
  "afterFiveFailures =
     repeatLogin exampleIdp allowedAdminEmail ''wrong'' [1000, 2000, 3000, 4000, 5000]
       (worldWith exampleAdmin)"

text \<open>Two audit entries for one e-mail, written while the clock reads 1000.\<close>

definition firstEntry :: world where
  "firstEntry =
     createAuditLog ''login_attempt'' ''a@x.com'' Blocked
       ''Account locked after 5 failed attempts'' 1000 (worldWith exampleAdmin)"

definition secondEntry :: world where
  "secondEntry =
     createAuditLog ''login_attempt'' ''a@x.com'' Failed ''Invalid credentials'' 1000 firstEntry"



section \<open>References that the SDK accepts\<close>

lemma no_slash_showNat: "CHR ''/'' \<notin> set (showNat n)"
proof (induction n rule: showNat.induct)
  case (1 n)
  have digit: "char_of (48 + k) \<noteq> CHR ''/''" if "k < 10" for k :: nat
  proof
    assume "char_of (48 + k) = CHR ''/''"
    then have "of_char (char_of (48 + k) :: char) = (of_char CHR ''/'' :: nat)"
      by simp
    with that show False
      by simp
  qed
  show ?case
  proof (cases "n < 10")
    case True
    then show ?thesis
      using digit [of n] by (subst showNat.simps) auto
  next
    case False
    then show ?thesis
      using "1.IH" digit [of "n mod 10"] by (subst showNat.simps) auto
  qed
qed

lemma no_slash_showInt: "CHR ''/'' \<notin> set (showInt i)"
  by (simp add: showInt_def no_slash_showNat)

lemma splitSlash_plain: "CHR ''/'' \<notin> set k \<Longrightarrow> splitSlash k = [k]"
  by (induction k) auto

lemma splitSlash_not_Nil: "splitSlash k \<noteq> []"
  by (induction k) (auto split: list.splits)

lemma hd_splitSlash: "hd (splitSlash k) = takeWhile (\<lambda>c. c \<noteq> CHR ''/'') k"
  using splitSlash_not_Nil by (induction k) (auto split: list.splits)

lemma splitSlash_append:
  "CHR ''/'' \<notin> set p \<Longrightarrow> splitSlash (p @ k) = (p @ hd (splitSlash k)) # tl (splitSlash k)"
  using splitSlash_not_Nil [of k] by (induction p) (auto split: list.splits)

lemma stringIncludes_chars: "stringIncludes k sub \<Longrightarrow> set sub \<subseteq> set k"
proof (induction k)
  case Nil
  then show ?case by simp
next
  case (Cons c cs)
  from Cons.prems have "take (length sub) (c # cs) = sub \<or> stringIncludes cs sub"
    by simp
  then show ?case
  proof
    assume "take (length sub) (c # cs) = sub"
    then have "set sub = set (take (length sub) (c # cs))"
      by simp
    then show ?thesis
      using set_take_subset [of "length sub" "c # cs"] by blast
  next
    assume "stringIncludes cs sub"
    then show ?thesis
      using Cons.IH by auto
  qed
qed

text \<open>An id that is not empty and has no \<^verbatim>\<open>/\<close> names the document of that id.\<close>

lemma doc_plain:
  assumes "CHR ''/'' \<notin> set k" and "k \<noteq> []"
  shows "doc collection k = Inr [collection, k]"
proof -
  have "\<not> stringIncludes k ''//''"
    using stringIncludes_chars [of k "''//''"] assms(1) by auto
  then show ?thesis
    using assms by (simp add: doc_def splitSlash_plain)
qed

text \<open>The empty id is refused, with a message that has no \<^verbatim>\<open>attempts\<close> in it.\<close>

lemma doc_admins_empty:
  "\<exists>err. doc ''admins'' [] = Inl err \<and> \<not> stringIncludes (message err) ''attempts''"
  by (simp add: doc_def showNat.simps [of "Suc 0"])

lemma doc_auditLogs_plain:
  assumes "CHR ''/'' \<notin> set em"
  shows "doc ''auditLogs'' (showInt now @ ''-'' @ em)
           = Inr [''auditLogs'', showInt now @ ''-'' @ em]"
  using assms by (intro doc_plain) (simp_all add: no_slash_showInt)

text \<open>
  The id of the document of \<^verbatim>\<open>auditLogs\<close> that an entry is sent to: the digits of the
  clock, a dash, and the e-mail up to its first \<^verbatim>\<open>/\<close>.
\<close>

lemma auditLog_id:
  assumes "doc ''auditLogs'' (showInt now @ ''-'' @ em) = Inr path" and "length path = 2"
  shows "path = [''auditLogs'', showInt now @ ''-'' @ takeWhile (\<lambda>c. c \<noteq> CHR ''/'') em]"
proof -
  let ?p = "showInt now @ ''-''"
  have plain: "CHR ''/'' \<notin> set ?p"
    by (simp add: no_slash_showInt)
  have split: "splitSlash (?p @ em) = (?p @ hd (splitSlash em)) # tl (splitSlash em)"
    using plain by (rule splitSlash_append)
  have path: "path = ''auditLogs'' # (?p @ hd (splitSlash em))
                       # filter (\<lambda>seg. seg \<noteq> []) (tl (splitSlash em))"
    using assms(1) split by (simp add: doc_def Let_def split: if_splits)
  with assms(2) have "filter (\<lambda>seg. seg \<noteq> []) (tl (splitSlash em)) = []"
    by simp
  with path show ?thesis
    by (simp add: hd_splitSlash)
qed

lemma createAuditLog_plain:
  assumes "CHR ''/'' \<notin> set em"
  shows "createAuditLog act em st rsn now s =
           s\<lparr>auditLogs := (auditLogs s)((now, em) \<mapsto>
                \<lparr>action = act, logEmail = em, ipAddress = ''unknown'',
                 logUserAgent = userAgent s, status = st, reason = rsn,
                 logTimestamp = now\<rparr>),
             auditWrites := auditWrites s @
               [\<lparr>action = act, logEmail = em, ipAddress = ''unknown'',
                 logUserAgent = userAgent s, status = st, reason = rsn,
                 logTimestamp = now\<rparr>]\<rparr>"
proof -
  have whole: "takeWhile (\<lambda>c. c \<noteq> CHR ''/'') em = em"
    using assms by (induction em) auto
  show ?thesis
    unfolding createAuditLog_def doc_auditLogs_plain [OF assms] whole by (simp add: Let_def)
qed

text \<open>When \<^verbatim>\<open>doc\<close> refuses the id, nothing is written.\<close>

lemma createAuditLog_refused:
  assumes "doc ''auditLogs'' (showInt now @ ''-'' @ em) = Inl err"
  shows "createAuditLog act em st rsn now s = s"
  unfolding createAuditLog_def assms by simp

section \<open>What the operations leave alone\<close>

lemma admins_createAuditLog [simp]:
  "admins (createAuditLog act em st rsn now s) = admins s"
  by (simp add: createAuditLog_def Let_def split: sum.splits)

lemma admins_signIn [simp]: "admins (signIn now fu s) = admins s"
  by (simp add: signIn_def)

lemma admins_signOut [simp]: "admins (signOut s) = admins s"
  by (simp add: signOut_def)

lemma admins_getIdToken [simp]: "admins (snd (getIdToken force now fu s)) = admins s"
  by (simp add: getIdToken_def split: option.splits)

lemma admins_updateDoc:
  "admins (updateDoc k f s) =
     (case admins s k of None \<Rightarrow> admins s | Some d \<Rightarrow> (admins s)(k \<mapsto> f d))"
  by (simp add: updateDoc_def split: option.splits)

lemma auditWrites_signIn [simp]: "auditWrites (signIn now fu s) = auditWrites s"
  by (simp add: signIn_def)

lemma auditWrites_signOut [simp]: "auditWrites (signOut s) = auditWrites s"
  by (simp add: signOut_def)

lemma auditWrites_getIdToken [simp]:
  "auditWrites (snd (getIdToken force now fu s)) = auditWrites s"
  by (simp add: getIdToken_def split: option.splits)

lemma auditWrites_updateDoc [simp]: "auditWrites (updateDoc k f s) = auditWrites s"
  by (simp add: updateDoc_def split: option.splits)

lemma auditWrites_setDoc [simp]: "auditWrites (setDoc k d s) = auditWrites s"
  by (simp add: setDoc_def)

lemma auditWrites_createAuditLog:
  assumes "CHR ''/'' \<notin> set em"
  shows "auditWrites (createAuditLog act em st rsn now s) =
           auditWrites s @
             [\<lparr>action = act, logEmail = em, ipAddress = ''unknown'',
               logUserAgent = userAgent s, status = st, reason = rsn,
               logTimestamp = now\<rparr>]"
  by (simp add: createAuditLog_plain [OF assms])

section \<open>The rate limiter's check\<close>

lemma storedAttempts_chronological:
  "storedAttempts stored \<Longrightarrow> sorted (map timestamp (parseStored stored))"
proof (induction rule: storedAttempts.induct)
  case absent
  show ?case by (simp add: parseStored_def)
next
  case (recorded stored now em)
  let ?new = "\<lparr>timestamp = now, attemptEmail = em\<rparr>"
  have "sorted (map timestamp (parseStored stored @ [?new]))"
    using recorded.IH recorded.hyps(2) by (simp add: sorted_append)
  then have "sorted (map timestamp
               (filter (\<lambda>a. now - timestamp a < RATE_LIMIT_WINDOW_MS)
                  (parseStored stored @ [?new])))"
    by (rule sorted_filter)
  then show ?case
    by (simp add: recordLoginAttempt_def parseStored_def Let_def)
next
  case (cleared stored em)
  have "sorted (map timestamp (filter (\<lambda>a. attemptEmail a \<noteq> em) (parseStored stored)))"
    using cleared.IH by (rule sorted_filter)
  then show ?case
    by (simp add: clearLoginAttempts_def parseStored_def)
qed

lemma first_of_sorted_filter:
  assumes "sorted (map f xs)" and "filter P xs \<noteq> []"
  shows "f (hd (filter P xs)) = Min (f ` set (filter P xs))"
proof -
  obtain y ys where ys: "filter P xs = y # ys"
    using assms(2) by (cases "filter P xs") auto
  have "sorted (map f (filter P xs))"
    using assms(1) by (rule sorted_filter)
  then have "\<forall>z \<in> set ys. f y \<le> f z"
    by (simp add: ys)
  then have "Min (f ` set (y # ys)) = f y"
    by (intro Min_eqI) auto
  then show ?thesis
    by (simp add: ys)
qed

text \<open>
  C6, as the code has it. For every stored attempt list, every key and every time,
  \<open>checkRateLimit\<close>, which returns its answer and nothing else, keeps the attempts
  younger than the window of 15 minutes, takes those of the key, and when there are 5 or
  more answers \<open>allowed = False\<close> with the window less the age of the first of them in
  the order of the list; otherwise it answers \<open>allowed = True\<close>. Where the list is in the
  order of its time stamps, the first of them is the oldest, the one of the least time
  stamp; and a list that the login page has stored under a clock that never steps back is
  in that order.
\<close>

theorem checkRateLimit_window:
  "checkRateLimit stored em now =
     (let matching = filter (\<lambda>a. attemptEmail a = em)
                       (filter (\<lambda>a. now - timestamp a < 15 * 60 * 1000) (parseStored stored))
      in if 5 \<le> length matching
         then \<lparr>allowed = False,
               remainingTime = Some (15 * 60 * 1000 - (now - timestamp (hd matching)))\<rparr>
         else \<lparr>allowed = True, remainingTime = None\<rparr>)
   \<and> (sorted (map timestamp (parseStored stored)) \<longrightarrow>
        (let matching = filter (\<lambda>a. attemptEmail a = em)
                          (filter (\<lambda>a. now - timestamp a < 15 * 60 * 1000)
                             (parseStored stored))
         in 5 \<le> length matching \<longrightarrow>
              timestamp (hd matching) = Min (timestamp ` set matching)))
   \<and> (storedAttempts stored \<longrightarrow> sorted (map timestamp (parseStored stored)))"
proof (intro conjI impI)
  let ?recent = "filter (\<lambda>a. now - timestamp a < 15 * 60 * 1000) (parseStored stored)"
  let ?matching = "filter (\<lambda>a. attemptEmail a = em) ?recent"
  have first: "?matching ! 0 = hd ?matching" if "5 \<le> length ?matching"
    using that by (intro hd_conv_nth [symmetric]) auto
  show "checkRateLimit stored em now =
     (let matching = ?matching
      in if 5 \<le> length matching
         then \<lparr>allowed = False,
               remainingTime = Some (15 * 60 * 1000 - (now - timestamp (hd matching)))\<rparr>
         else \<lparr>allowed = True, remainingTime = None\<rparr>)"
    using first
    by (simp add: checkRateLimit_def RATE_LIMIT_MAX_ATTEMPTS_def RATE_LIMIT_WINDOW_MS_def
          Let_def)
next
  let ?recent = "filter (\<lambda>a. now - timestamp a < 15 * 60 * 1000) (parseStored stored)"
  let ?matching = "filter (\<lambda>a. attemptEmail a = em) ?recent"
  assume "sorted (map timestamp (parseStored stored))"
  then have srt: "sorted (map timestamp ?recent)"
    by (rule sorted_filter)
  have "timestamp (hd ?matching) = Min (timestamp ` set ?matching)" if "5 \<le> length ?matching"
  proof -
    from that have "?matching \<noteq> []" by auto
    with srt show ?thesis
      by (rule first_of_sorted_filter)
  qed
  then show "let matching = ?matching
             in 5 \<le> length matching \<longrightarrow>
                  timestamp (hd matching) = Min (timestamp ` set matching)"
    by (simp add: Let_def)
next
  assume "storedAttempts stored"
  then show "sorted (map timestamp (parseStored stored))"
    by (rule storedAttempts_chronological)
qed

text \<open>
  Six attempts recorded in the first five seconds, five of them for \<^verbatim>\<open>b@x.com\<close>: after ten
  minutes the key is refused for five minutes more, the window less the age of the oldest
  attempt, and after fifteen minutes that attempt has left the window and the key is
  allowed.
\<close>

lemma fiveAttempts_eq:
  "fiveAttempts = Some
     [\<lparr>timestamp = 0, attemptEmail = ''b@x.com''\<rparr>,
      \<lparr>timestamp = 1000, attemptEmail = ''a@x.com''\<rparr>,
      \<lparr>timestamp = 2000, attemptEmail = ''b@x.com''\<rparr>,
      \<lparr>timestamp = 3000, attemptEmail = ''b@x.com''\<rparr>,
      \<lparr>timestamp = 4000, attemptEmail = ''b@x.com''\<rparr>,
      \<lparr>timestamp = 5000, attemptEmail = ''b@x.com''\<rparr>]"
  by (simp add: fiveAttempts_def recordLoginAttempt_def parseStored_def
        RATE_LIMIT_WINDOW_MS_def)

lemma storedAttempts_fiveAttempts: "storedAttempts fiveAttempts"
  unfolding fiveAttempts_def
  by (intro storedAttempts.intros)
     (simp_all add: recordLoginAttempt_def parseStored_def RATE_LIMIT_WINDOW_MS_def)

theorem checkRateLimit_window_witness:
  "storedAttempts fiveAttempts
   \<and> sorted (map timestamp (parseStored fiveAttempts))
   \<and> 5 \<le> length (filter (\<lambda>a. attemptEmail a = ''b@x.com'')
                   (filter (\<lambda>a. 600000 - timestamp a < 15 * 60 * 1000)
                      (parseStored fiveAttempts)))
   \<and> Min (timestamp ` set (filter (\<lambda>a. attemptEmail a = ''b@x.com'')
                             (filter (\<lambda>a. 600000 - timestamp a < 15 * 60 * 1000)
                                (parseStored fiveAttempts)))) = 0
   \<and> checkRateLimit fiveAttempts ''b@x.com'' 600000
       = \<lparr>allowed = False, remainingTime = Some 300000\<rparr>
   \<and> checkRateLimit fiveAttempts ''b@x.com'' 900000
       = \<lparr>allowed = True, remainingTime = None\<rparr>"
  using storedAttempts_fiveAttempts
    checkRateLimit_window [of fiveAttempts "''b@x.com''" 600000]
    checkRateLimit_window [of fiveAttempts "''b@x.com''" 900000]
  by (simp add: fiveAttempts_eq parseStored_def Let_def)

text \<open>
  C6 as stated fails. The login page has recorded five attempts for \<^verbatim>\<open>b@x.com\<close> while the
  clock read 5000, 0, 2000, 3000 and 4000. At 600000 the oldest of them, of time stamp 0,
  has the age 600000, and the window less that age is 300000; the check answers 305000,
  the window less the age of the attempt that is first in the list.
\<close>

theorem checkRateLimit_not_oldest:
  "map timestamp (parseStored steppedBackAttempts) = [5000, 0, 2000, 3000, 4000]
   \<and> Min (timestamp ` set (parseStored steppedBackAttempts)) = 0
   \<and> checkRateLimit steppedBackAttempts ''b@x.com'' 600000
       = \<lparr>allowed = False, remainingTime = Some 305000\<rparr>
   \<and> RATE_LIMIT_WINDOW_MS - (600000 - 0) = 300000"
  by (simp add: steppedBackAttempts_def recordLoginAttempt_def checkRateLimit_def
        parseStored_def RATE_LIMIT_MAX_ATTEMPTS_def RATE_LIMIT_WINDOW_MS_def Let_def)

section \<open>A login that succeeds\<close>

text \<open>Both \<^verbatim>\<open>catch\<close> blocks end in a throw, so a login that succeeds is its \<^verbatim>\<open>try\<close> block.\<close>

lemma loginWithEmail_catch_throws:
  "\<not> succeeded (fst (loginWithEmail_catch now em err s))"
  by (cases err)
     (simp_all add: loginWithEmail_catch_def succeeded_def Let_def
        split: option.splits sum.splits)

lemma loginWithGoogle_catch_throws:
  "\<not> succeeded (fst (loginWithGoogle_catch now err s))"
  by (cases err) (simp_all add: loginWithGoogle_catch_def succeeded_def)

lemma loginWithEmail_success_try:
  assumes "succeeded (fst (loginWithEmail idp now em pw s))"
  shows "loginWithEmail idp now em pw s = loginWithEmail_try idp now em pw s"
proof (cases "loginWithEmail_try idp now em pw s")
  case (Pair r s')
  show ?thesis
  proof (cases r)
    case (Inl err)
    with Pair have "loginWithEmail idp now em pw s = loginWithEmail_catch now em err s'"
      by (simp add: loginWithEmail_def)
    with assms loginWithEmail_catch_throws [of now em err s'] show ?thesis
      by simp
  next
    case (Inr response)
    with Pair show ?thesis
      by (simp add: loginWithEmail_def)
  qed
qed

lemma loginWithGoogle_success_try:
  assumes "succeeded (fst (loginWithGoogle env popup now s))"
  shows "loginWithGoogle env popup now s = loginWithGoogle_try env popup now s"
proof (cases "loginWithGoogle_try env popup now s")
  case (Pair r s')
  show ?thesis
  proof (cases r)
    case (Inl err)
    with Pair have "loginWithGoogle env popup now s = loginWithGoogle_catch now err s'"
      by (simp add: loginWithGoogle_def)
    with assms loginWithGoogle_catch_throws [of now err s'] show ?thesis
      by simp
  next
    case (Inr response)
    with Pair show ?thesis
      by (simp add: loginWithGoogle_def)
  qed
qed

section \<open>Login with e-mail and password: the verified path\<close>

lemma loginWithEmail_succeeded_iff:
  assumes "idp em pw = Inr firebaseUser" and "admins s (fbUid firebaseUser) = Some d"
  shows "succeeded (fst (loginWithEmail idp now em pw s)) \<longleftrightarrow>
           em = allowedAdminEmail \<and> isActive d
           \<and> \<not> (isLocked d \<and> (\<exists>lockedUntilTime. lockedUntil d = Some lockedUntilTime
                                  \<and> now < lockedUntilTime))"
  using assms
  by (auto simp: loginWithEmail_def loginWithEmail_try_def loginWithEmail_catch_def
        loginWithEmail_reset_def getAdminData_def succeeded_def Let_def case_prod_beta
      split: option.splits)

lemma loginWithEmail_locked:
  assumes "idp em pw = Inr firebaseUser" and "admins s (fbUid firebaseUser) = Some d"
      and "em = allowedAdminEmail" and "isActive d"
      and "isLocked d" and "lockedUntil d = Some lockedUntilTime" and "now < lockedUntilTime"
  shows "fst (loginWithEmail idp now em pw s) = Inl (Locked (remainingMinutes lockedUntilTime now))"
  using assms
  by (simp add: loginWithEmail_def loginWithEmail_try_def loginWithEmail_catch_def
        getAdminData_def Let_def)

lemma loginWithEmail_success_admins:
  assumes "idp em pw = Inr firebaseUser" and "admins s (fbUid firebaseUser) = Some d"
      and "succeeded (fst (loginWithEmail idp now em pw s))"
  shows "admins (snd (loginWithEmail idp now em pw s)) =
           (admins s)(fbUid firebaseUser \<mapsto>
              (if isLocked d \<and> lockedUntil d \<noteq> None
               then d\<lparr>lastLogin := Some now, loginAttempts := 0, isLocked := False,
                      lockedUntil := None, updatedAt := now\<rparr>
               else d\<lparr>lastLogin := Some now, loginAttempts := 0, updatedAt := now\<rparr>))"
  using assms
  by (auto simp: loginWithEmail_def loginWithEmail_try_def loginWithEmail_catch_def
        loginWithEmail_reset_def getAdminData_def succeeded_def Let_def case_prod_beta
        admins_updateDoc
      split: option.splits if_splits)

section \<open>Failed credentials and the lock\<close>

text \<open>
  When the provider rejects the credentials of an e-mail that has no \<^verbatim>\<open>/\<close>, the \<^verbatim>\<open>catch\<close>
  block reads the document of \<^verbatim>\<open>admins\<close> whose id is the e-mail; the empty e-mail is no
  id, and the error of \<^verbatim>\<open>doc\<close> is passed over.
\<close>

lemma loginWithEmail_catch_plain:
  assumes "CHR ''/'' \<notin> set em"
      and "code = ''auth/wrong-password'' \<or> code = ''auth/invalid-credential''"
  shows "loginWithEmail_catch now em (AuthError code msg) s =
     (case (if em = [] then None else admins s em) of
        Some adminData \<Rightarrow>
          let attempts = loginAttempts adminData + 1 in
          if attempts \<ge> 5 then
            (Inl TooManyAttempts,
             createAuditLog ''login_attempt'' em Blocked
               ''Account locked after 5 failed attempts'' now
               (updateDoc em
                  (\<lambda>d. d\<lparr>isLocked := True,
                          lockedUntil := Some (now + 15 * 60 * 1000),
                          loginAttempts := attempts, updatedAt := now\<rparr>) s))
          else
            (Inl (InvalidPassword (5 - attempts)),
             createAuditLog ''login_attempt'' em Failed
               (''Invalid password ('' @ showNat (5 - attempts) @ '' attempts left)'') now
               (updateDoc em
                  (\<lambda>d. d\<lparr>loginAttempts := attempts, updatedAt := now\<rparr>) s))
      | None \<Rightarrow>
          (Inl InvalidCredentials,
           createAuditLog ''login_attempt'' em Failed ''Invalid credentials'' now s))"
proof (cases "em = []")
  case True
  obtain err where "doc ''admins'' [] = Inl err"
    and "\<not> stringIncludes (message err) ''attempts''"
    using doc_admins_empty by blast
  then show ?thesis
    using assms(2) True by (simp add: loginWithEmail_catch_def)
next
  case False
  have "doc ''admins'' em = Inr [''admins'', em]"
    using assms(1) False by (rule doc_plain)
  then show ?thesis
    using assms(2) False by (simp add: loginWithEmail_catch_def split: option.splits)
qed

text \<open>Where there is no such document, it writes the audit entry and nothing else.\<close>

lemma loginWithEmail_rejected_credentials:
  assumes "idp em pw = Inl (code, msg)"
      and "code = ''auth/wrong-password'' \<or> code = ''auth/invalid-credential''"
      and "CHR ''/'' \<notin> set em" and "admins s em = None"
  shows "loginWithEmail idp now em pw s =
           (Inl InvalidCredentials,
            createAuditLog ''login_attempt'' em Failed ''Invalid credentials'' now s)"
  using assms
  by (simp add: loginWithEmail_def loginWithEmail_try_def loginWithEmail_catch_plain)

lemma repeatLogin_rejected_admins:
  assumes "idp em pw = Inl (code, msg)"
      and "code = ''auth/wrong-password'' \<or> code = ''auth/invalid-credential''"
      and "CHR ''/'' \<notin> set em" and "admins s em = None"
  shows "admins (repeatLogin idp em pw clock s) = admins s"
  using assms(4)
proof (induction clock arbitrary: s)
  case Nil
  then show ?case by simp
next
  case (Cons now later)
  have step: "snd (loginWithEmail idp now em pw s)
                = createAuditLog ''login_attempt'' em Failed ''Invalid credentials'' now s"
    using assms(1,2,3) Cons.prems
    by (simp add: loginWithEmail_rejected_credentials [where idp = idp and code = code])
  have "admins (snd (loginWithEmail idp now em pw s)) em = None"
    using Cons.prems by (simp add: step)
  then have "admins (repeatLogin idp em pw later (snd (loginWithEmail idp now em pw s)))
               = admins (snd (loginWithEmail idp now em pw s))"
    by (rule Cons.IH)
  then show ?case by (simp add: step)
qed

lemma repeatLogin_rejected_writes:
  assumes "idp em pw = Inl (code, msg)"
      and "code = ''auth/wrong-password'' \<or> code = ''auth/invalid-credential''"
      and "CHR ''/'' \<notin> set em" and "admins s em = None"
  shows "map status (auditWrites (repeatLogin idp em pw clock s))
           = map status (auditWrites s) @ replicate (length clock) Failed"
  using assms(4)
proof (induction clock arbitrary: s)
  case Nil
  then show ?case by simp
next
  case (Cons now later)
  have step: "snd (loginWithEmail idp now em pw s)
                = createAuditLog ''login_attempt'' em Failed ''Invalid credentials'' now s"
    using assms(1,2,3) Cons.prems
    by (simp add: loginWithEmail_rejected_credentials [where idp = idp and code = code])
  have "admins (snd (loginWithEmail idp now em pw s)) em = None"
    using Cons.prems by (simp add: step)
  then have "map status (auditWrites (repeatLogin idp em pw later
                                        (snd (loginWithEmail idp now em pw s))))
               = map status (auditWrites (snd (loginWithEmail idp now em pw s)))
                   @ replicate (length later) Failed"
    by (rule Cons.IH)
  then show ?case
    by (simp add: step auditWrites_createAuditLog [OF assms(3)] replicate_append_same)
qed

text \<open>
  C1, at a failing input. The administrator's document has the id \<^verbatim>\<open>uid-1\<close>. Five logins
  with a wrong password, at 1000 to 5000, are each answered with an audit entry of status
  \<open>Failed\<close>; the document is as it was, with no failed attempt counted and no lock; and
  the sixth login, at 6000 with the right password, succeeds.
\<close>

theorem lockout_not_engaged:
  "admins afterFiveFailures ''uid-1'' = Some exampleAdmin
   \<and> loginAttempts exampleAdmin = 0 \<and> isLocked exampleAdmin = False
   \<and> map status (auditWrites afterFiveFailures) = [Failed, Failed, Failed, Failed, Failed]
   \<and> succeeded (fst (loginWithEmail exampleIdp 6000 allowedAdminEmail ''secret''
                       afterFiveFailures))"
proof -
  have rejected: "exampleIdp allowedAdminEmail ''wrong''
                    = Inl (''auth/invalid-credential'',
                           ''Firebase: Error (auth/invalid-credential).'')"
    by (simp add: exampleIdp_def)
  have no_doc: "admins (worldWith exampleAdmin) allowedAdminEmail = None"
    by (simp add: worldWith_def allowedAdminEmail_def)
  have plain: "CHR ''/'' \<notin> set allowedAdminEmail"
    by (simp add: allowedAdminEmail_def)
  have same: "admins afterFiveFailures = admins (worldWith exampleAdmin)"
    unfolding afterFiveFailures_def
    by (rule repeatLogin_rejected_admins
          [where idp = exampleIdp and code = "''auth/invalid-credential''",
           OF rejected _ plain no_doc])
       simp
  have stored: "admins afterFiveFailures (fbUid exampleUser) = Some exampleAdmin"
    unfolding same by (simp add: worldWith_def exampleUser_def)
  have signed: "exampleIdp allowedAdminEmail ''secret'' = Inr exampleUser"
    by (simp add: exampleIdp_def)
  have success:
    "succeeded (fst (loginWithEmail exampleIdp 6000 allowedAdminEmail ''secret''
                       afterFiveFailures))"
    using loginWithEmail_succeeded_iff
            [where idp = exampleIdp and em = allowedAdminEmail and pw = "''secret''",
             OF signed stored, of 6000]
    by (simp add: exampleAdmin_def)
  have writes:
    "map status (auditWrites afterFiveFailures) = [Failed, Failed, Failed, Failed, Failed]"
    unfolding afterFiveFailures_def
    by (subst repeatLogin_rejected_writes
          [where idp = exampleIdp and code = "''auth/invalid-credential''",
           OF rejected _ plain no_doc])
       (simp_all add: worldWith_def eval_nat_numeral)
  show ?thesis
    using stored success writes by (simp add: exampleUser_def exampleAdmin_def)
qed

text \<open>
  Where the document is stored under the e-mail, the path does count and lock: the fifth
  failure in a row writes \<open>isLocked = True\<close> and \<open>lockedUntil = now + 15 minutes\<close> in the
  update that records it.
\<close>

lemma loginWithEmail_fifth_failure:
  assumes "idp em pw = Inl (code, msg)"
      and "code = ''auth/wrong-password'' \<or> code = ''auth/invalid-credential''"
      and "CHR ''/'' \<notin> set em" and "em \<noteq> []"
      and "admins s em = Some d" and "loginAttempts d = 4"
  shows "fst (loginWithEmail idp now em pw s) = Inl TooManyAttempts"
    and "admins (snd (loginWithEmail idp now em pw s)) em =
           Some (d\<lparr>loginAttempts := 5, isLocked := True,
                   lockedUntil := Some (now + 15 * 60 * 1000), updatedAt := now\<rparr>)"
  using assms
  by (simp_all add: loginWithEmail_def loginWithEmail_try_def loginWithEmail_catch_plain
        Let_def admins_updateDoc)

section \<open>Login with Google: the verified path\<close>

lemma loginWithGoogle_existing:
  assumes "popup = Inr firebaseUser" and "\<not> emailNotAllowed env firebaseUser"
      and "admins s (fbUid firebaseUser) = Some d" and "isActive d"
  shows "succeeded (fst (loginWithGoogle env popup now s))"
    and "admins (snd (loginWithGoogle env popup now s)) =
           (admins s)(fbUid firebaseUser \<mapsto> d\<lparr>lastLogin := Some now, updatedAt := now\<rparr>)"
  using assms
  by (simp_all add: loginWithGoogle_def loginWithGoogle_try_def loginWithGoogle_token_def
        getAdminData_def succeeded_def Let_def case_prod_beta admins_updateDoc)

text \<open>
  C3, at a failing input. The administrator's account is locked until 900000. At 600000
  the login with the right password is refused with \<open>Locked\<close> and five minutes to wait;
  the login with Google of the same user succeeds, and leaves the lock in the document.
\<close>

theorem loginWithGoogle_ignores_lock:
  "fst (loginWithEmail exampleIdp 600000 allowedAdminEmail ''secret'' (worldWith lockedAdmin))
     = Inl (Locked 5)
   \<and> succeeded (fst (loginWithGoogle (Some allowedAdminEmail) (Inr exampleUser) 600000
                       (worldWith lockedAdmin)))
   \<and> map_option isLocked
        (admins (snd (loginWithGoogle (Some allowedAdminEmail) (Inr exampleUser) 600000
                        (worldWith lockedAdmin))) ''uid-1'') = Some True"
proof -
  have signed: "exampleIdp allowedAdminEmail ''secret'' = Inr exampleUser"
    by (simp add: exampleIdp_def)
  have stored: "admins (worldWith lockedAdmin) (fbUid exampleUser) = Some lockedAdmin"
    by (simp add: worldWith_def exampleUser_def)
  have "fst (loginWithEmail exampleIdp 600000 allowedAdminEmail ''secret''
               (worldWith lockedAdmin))
          = Inl (Locked (remainingMinutes 900000 600000))"
    by (rule loginWithEmail_locked
          [where idp = exampleIdp and pw = "''secret''" and d = lockedAdmin,
           OF signed stored])
       (simp_all add: lockedAdmin_def exampleAdmin_def)
  then have email: "fst (loginWithEmail exampleIdp 600000 allowedAdminEmail ''secret''
                           (worldWith lockedAdmin)) = Inl (Locked 5)"
    by (simp add: remainingMinutes_def)
  have permitted: "\<not> emailNotAllowed (Some allowedAdminEmail) exampleUser"
    by (simp add: emailNotAllowed_def exampleUser_def)
  have active: "isActive lockedAdmin"
    by (simp add: lockedAdmin_def exampleAdmin_def)
  note google = loginWithGoogle_existing [OF refl permitted stored active, of 600000]
  have "map_option isLocked
          (admins (snd (loginWithGoogle (Some allowedAdminEmail) (Inr exampleUser) 600000
                          (worldWith lockedAdmin))) ''uid-1'') = Some True"
    unfolding google(2) by (simp add: exampleUser_def lockedAdmin_def)
  with email google(1) show ?thesis by simp
qed

section \<open>What a login that succeeds resets\<close>

lemma loginWithEmail_success_account:
  assumes "succeeded (fst (loginWithEmail idp now em pw s))"
  obtains firebaseUser d where "idp em pw = Inr firebaseUser"
    and "admins s (fbUid firebaseUser) = Some d"
proof (cases "idp em pw")
  case (Inl failure)
  then have "loginWithEmail idp now em pw s
               = loginWithEmail_catch now em (AuthError (fst failure) (snd failure)) s"
    by (simp add: loginWithEmail_def loginWithEmail_try_def case_prod_beta)
  with assms loginWithEmail_catch_throws show thesis
    by metis
next
  case (Inr firebaseUser)
  show thesis
  proof (cases "admins s (fbUid firebaseUser)")
    case None
    have "\<not> succeeded (fst (loginWithEmail idp now em pw s))"
      using Inr None
      by (simp add: loginWithEmail_def loginWithEmail_try_def loginWithEmail_catch_def
            getAdminData_def succeeded_def Let_def)
    with assms show thesis
      by simp
  next
    case (Some d)
    with Inr show thesis
      by (rule that)
  qed
qed

lemma loginWithGoogle_existing_document:
  assumes "succeeded (fst (loginWithGoogle env (Inr googleUser) now s))"
      and "admins s (fbUid googleUser) = Some d"
  shows "admins (snd (loginWithGoogle env (Inr googleUser) now s)) (fbUid googleUser)
           = Some (d\<lparr>lastLogin := Some now, updatedAt := now\<rparr>)"
proof -
  note body = loginWithGoogle_success_try [OF assms(1)]
  have "succeeded (fst (loginWithGoogle_try env (Inr googleUser) now s))"
    using assms(1) unfolding body .
  then show ?thesis
    unfolding body using assms(2)
    by (auto simp: loginWithGoogle_try_def loginWithGoogle_token_def getAdminData_def
          succeeded_def Let_def case_prod_beta admins_updateDoc
        split: if_splits)
qed

text \<open>
  C4, as the code has it. For every account, whatever its counter of failed attempts and
  its lock flag were, a login with e-mail and password that succeeds leaves
  \<open>loginAttempts = 0\<close> in the stored document of the account; it leaves
  \<open>isLocked = False\<close> there unless the document held \<open>isLocked = True\<close> with no
  \<open>lockedUntil\<close>, which the check \<^verbatim>\<open>isLocked && lockedUntil\<close> passes over and which stays
  as it was. A login with Google that succeeds for an account that has a document leaves
  \<open>loginAttempts\<close>, \<open>isLocked\<close> and \<open>lockedUntil\<close> of the document as they were.
\<close>

theorem successful_login_reset:
  "(succeeded (fst (loginWithEmail idp now em pw s)) \<longrightarrow>
      (\<exists>firebaseUser d d'.
          idp em pw = Inr firebaseUser
        \<and> admins s (fbUid firebaseUser) = Some d
        \<and> admins (snd (loginWithEmail idp now em pw s)) (fbUid firebaseUser) = Some d'
        \<and> loginAttempts d' = 0
        \<and> isLocked d' = (isLocked d \<and> lockedUntil d = None)
        \<and> lockedUntil d' = (if isLocked d then None else lockedUntil d)))
   \<and> (succeeded (fst (loginWithGoogle env (Inr googleUser) now s)) \<longrightarrow>
      admins s (fbUid googleUser) = Some g \<longrightarrow>
      (\<exists>g'. admins (snd (loginWithGoogle env (Inr googleUser) now s)) (fbUid googleUser)
                = Some g'
        \<and> loginAttempts g' = loginAttempts g
        \<and> isLocked g' = isLocked g
        \<and> lockedUntil g' = lockedUntil g))"
proof (intro conjI impI)
  assume success: "succeeded (fst (loginWithEmail idp now em pw s))"
  then obtain firebaseUser d where signed: "idp em pw = Inr firebaseUser"
    and stored: "admins s (fbUid firebaseUser) = Some d"
    by (rule loginWithEmail_success_account)
  note after = loginWithEmail_success_admins [OF signed stored success]
  show "\<exists>firebaseUser d d'.
          idp em pw = Inr firebaseUser
        \<and> admins s (fbUid firebaseUser) = Some d
        \<and> admins (snd (loginWithEmail idp now em pw s)) (fbUid firebaseUser) = Some d'
        \<and> loginAttempts d' = 0
        \<and> isLocked d' = (isLocked d \<and> lockedUntil d = None)
        \<and> lockedUntil d' = (if isLocked d then None else lockedUntil d)"
    using signed stored by (cases "lockedUntil d") (auto simp: after)
next
  assume "succeeded (fst (loginWithGoogle env (Inr googleUser) now s))"
    and "admins s (fbUid googleUser) = Some g"
  then show "\<exists>g'. admins (snd (loginWithGoogle env (Inr googleUser) now s)) (fbUid googleUser)
                = Some g'
        \<and> loginAttempts g' = loginAttempts g
        \<and> isLocked g' = isLocked g
        \<and> lockedUntil g' = lockedUntil g"
    by (simp add: loginWithGoogle_existing_document)
qed

text \<open>
  An account with four failed attempts on record and a lock that ran out at 500: the login
  with the password at 1000 succeeds, and the stored document is reset and unlocked; the
  login with Google at 1000 succeeds, and the stored document keeps its four attempts and
  its lock.
\<close>

theorem successful_login_reset_witness:
  "succeeded (fst (loginWithEmail exampleIdp 1000 allowedAdminEmail ''secret''
                     (worldWith staleAdmin)))
   \<and> loginAttempts staleAdmin = 4 \<and> isLocked staleAdmin \<and> lockedUntil staleAdmin = Some 500
   \<and> map_option loginAttempts
        (admins (snd (loginWithEmail exampleIdp 1000 allowedAdminEmail ''secret''
                        (worldWith staleAdmin))) ''uid-1'') = Some 0
   \<and> map_option isLocked
        (admins (snd (loginWithEmail exampleIdp 1000 allowedAdminEmail ''secret''
                        (worldWith staleAdmin))) ''uid-1'') = Some False
   \<and> succeeded (fst (loginWithGoogle None (Inr exampleUser) 1000 (worldWith staleAdmin)))
   \<and> admins (worldWith staleAdmin) (fbUid exampleUser) = Some staleAdmin
   \<and> map_option loginAttempts
        (admins (snd (loginWithGoogle None (Inr exampleUser) 1000 (worldWith staleAdmin)))
           ''uid-1'') = Some 4
   \<and> map_option isLocked
        (admins (snd (loginWithGoogle None (Inr exampleUser) 1000 (worldWith staleAdmin)))
           ''uid-1'') = Some True"
proof -
  have signed: "exampleIdp allowedAdminEmail ''secret'' = Inr exampleUser"
    by (simp add: exampleIdp_def)
  have stored: "admins (worldWith staleAdmin) (fbUid exampleUser) = Some staleAdmin"
    by (simp add: worldWith_def exampleUser_def)
  have uid: "fbUid exampleUser = ''uid-1''"
    by (simp add: exampleUser_def)
  have account: "loginAttempts staleAdmin = 4" "isLocked staleAdmin"
      "lockedUntil staleAdmin = Some 500" "isActive staleAdmin"
    by (simp_all add: staleAdmin_def exampleAdmin_def)
  have password: "succeeded (fst (loginWithEmail exampleIdp 1000 allowedAdminEmail ''secret''
                                    (worldWith staleAdmin)))"
    using loginWithEmail_succeeded_iff
            [where idp = exampleIdp and em = allowedAdminEmail and pw = "''secret''",
             OF signed stored, of 1000]
    by (simp add: account)
  have permitted: "\<not> emailNotAllowed None exampleUser"
    by (simp add: emailNotAllowed_def)
  have google: "succeeded (fst (loginWithGoogle None (Inr exampleUser) 1000
                                  (worldWith staleAdmin)))"
    by (rule loginWithGoogle_existing(1) [OF refl permitted stored account(4)])
  show ?thesis
    using password google stored account(1,2,3)
      successful_login_reset
        [where idp = exampleIdp and now = 1000 and em = allowedAdminEmail
           and pw = "''secret''" and s = "worldWith staleAdmin" and env = None
           and googleUser = exampleUser and g = staleAdmin]
    by (auto simp: signed uid)
qed

text \<open>
  C4 as stated fails. An account with three failed attempts on record is flagged locked
  and has no \<open>lockedUntil\<close>: the login with the password succeeds, and the stored
  document is still flagged locked. The account with four failed attempts and a lock that
  ran out at 500 logs in with Google at 1000, and the stored document keeps the four
  attempts and the lock.
\<close>

theorem successful_login_keeps_lock:
  "isLocked flaggedAdmin \<and> lockedUntil flaggedAdmin = None
   \<and> succeeded (fst (loginWithEmail exampleIdp 1000 allowedAdminEmail ''secret''
                       (worldWith flaggedAdmin)))
   \<and> map_option isLocked
        (admins (snd (loginWithEmail exampleIdp 1000 allowedAdminEmail ''secret''
                        (worldWith flaggedAdmin))) ''uid-1'') = Some True
   \<and> succeeded (fst (loginWithGoogle None (Inr exampleUser) 1000 (worldWith staleAdmin)))
   \<and> map_option loginAttempts
        (admins (snd (loginWithGoogle None (Inr exampleUser) 1000 (worldWith staleAdmin)))
           ''uid-1'') = Some 4
   \<and> map_option isLocked
        (admins (snd (loginWithGoogle None (Inr exampleUser) 1000 (worldWith staleAdmin)))
           ''uid-1'') = Some True"
proof -
  have signed: "exampleIdp allowedAdminEmail ''secret'' = Inr exampleUser"
    by (simp add: exampleIdp_def)
  have uid: "fbUid exampleUser = ''uid-1''"
    by (simp add: exampleUser_def)
  have flagged: "admins (worldWith flaggedAdmin) (fbUid exampleUser) = Some flaggedAdmin"
    by (simp add: worldWith_def exampleUser_def)
  have account: "isLocked flaggedAdmin" "lockedUntil flaggedAdmin = None"
      "isActive flaggedAdmin"
    by (simp_all add: flaggedAdmin_def exampleAdmin_def)
  have password: "succeeded (fst (loginWithEmail exampleIdp 1000 allowedAdminEmail ''secret''
                                    (worldWith flaggedAdmin)))"
    using loginWithEmail_succeeded_iff
            [where idp = exampleIdp and em = allowedAdminEmail and pw = "''secret''",
             OF signed flagged, of 1000]
    by (simp add: account)
  have kept: "map_option isLocked
        (admins (snd (loginWithEmail exampleIdp 1000 allowedAdminEmail ''secret''
                        (worldWith flaggedAdmin))) ''uid-1'') = Some True"
    using loginWithEmail_success_admins
            [where idp = exampleIdp and em = allowedAdminEmail and pw = "''secret''",
             OF signed flagged password]
    by (simp add: uid account)
  have stale: "admins (worldWith staleAdmin) (fbUid exampleUser) = Some staleAdmin"
    by (simp add: worldWith_def exampleUser_def)
  have permitted: "\<not> emailNotAllowed None exampleUser"
    by (simp add: emailNotAllowed_def)
  have active: "isActive staleAdmin"
    by (simp add: staleAdmin_def exampleAdmin_def)
  note google = loginWithGoogle_existing [OF refl permitted stale active, of 1000]
  have after: "map_option loginAttempts
        (admins (snd (loginWithGoogle None (Inr exampleUser) 1000 (worldWith staleAdmin)))
           ''uid-1'') = Some 4"
      "map_option isLocked
        (admins (snd (loginWithGoogle None (Inr exampleUser) 1000 (worldWith staleAdmin)))
           ''uid-1'') = Some True"
    unfolding google(2) by (simp_all add: uid staleAdmin_def)
  show ?thesis
    using account(1,2) password kept google(1) after by simp
qed

section \<open>The audit ledger\<close>

lemma createAuditLog_other_id:
  "k \<noteq> (now, takeWhile (\<lambda>c. c \<noteq> CHR ''/'') em)
     \<Longrightarrow> auditLogs (createAuditLog act em st rsn now s) k = auditLogs s k"
  by (simp add: createAuditLog_def Let_def split: sum.splits)

lemma createAuditLog_own_id:
  "CHR ''/'' \<notin> set em \<Longrightarrow>
   auditLogs (createAuditLog act em st rsn now s) (now, em) =
     Some \<lparr>action = act, logEmail = em, ipAddress = ''unknown'', logUserAgent = userAgent s,
           status = st, reason = rsn, logTimestamp = now\<rparr>"
  by (simp add: createAuditLog_plain)

text \<open>
  C5, at a failing input. Two entries for \<^verbatim>\<open>a@x.com\<close> are written while the clock reads
  1000: a block, then a failure. After the first write the ledger holds the block; after
  the second it holds one document, the failure, under the same id.
\<close>

theorem createAuditLog_overwrites:
  "map_option status (auditLogs firstEntry (1000, ''a@x.com'')) = Some Blocked
   \<and> map_option status (auditLogs secondEntry (1000, ''a@x.com'')) = Some Failed
   \<and> dom (auditLogs secondEntry) = {(1000, ''a@x.com'')}
   \<and> map status (auditWrites secondEntry) = [Blocked, Failed]"
  by (simp add: firstEntry_def secondEntry_def createAuditLog_plain worldWith_def)

section \<open>The first login with Google\<close>

lemma loginWithGoogle_first:
  assumes "\<not> emailNotAllowed env firebaseUser"
      and "admins s (fbUid firebaseUser) = None"
  shows "loginWithGoogle env (Inr firebaseUser) now s =
      loginWithGoogle_token now firebaseUser (newAdminUser now firebaseUser)
        (createAuditLog ''google_oauth'' (orElse (fbEmail firebaseUser) ''unknown'') Success
           ''First-time Google OAuth login'' now
           (setDoc (fbUid firebaseUser) (newAdminData now firebaseUser)
              (signIn now firebaseUser s)))"
  using assms
  by (simp add: loginWithGoogle_def loginWithGoogle_try_def loginWithGoogle_token_def
        getAdminData_def Let_def case_prod_beta)

text \<open>
  C10. Whenever a login with Google passes the check of the allowed e-mail and there is no
  document for the user, the login succeeds with a user of role \<open>Admin\<close>, and the document
  it has created has \<open>role = Admin\<close>, \<open>isActive = True\<close>, \<open>loginAttempts = 0\<close> and
  \<open>isLocked = False\<close>. The observer of the authentication state creates the same
  document for a signed-in user that has none.
\<close>

theorem first_google_login_is_admin:
  assumes "\<not> emailNotAllowed env firebaseUser"
      and "admins s (fbUid firebaseUser) = None"
  shows "(\<exists>response. fst (loginWithGoogle env (Inr firebaseUser) now s) = Inr response
            \<and> role (responseUser response) = Admin)
         \<and> admins (snd (loginWithGoogle env (Inr firebaseUser) now s)) (fbUid firebaseUser)
             = Some (newAdminData now firebaseUser)
         \<and> role (newAdminData now firebaseUser) = Admin
         \<and> isActive (newAdminData now firebaseUser)
         \<and> loginAttempts (newAdminData now firebaseUser) = 0
         \<and> \<not> isLocked (newAdminData now firebaseUser)
         \<and> (currentUser s = Some firebaseUser \<longrightarrow>
               fst (onAuthChange env now s) = Some (newAdminUser now firebaseUser)
               \<and> admins (snd (onAuthChange env now s)) (fbUid firebaseUser)
                   = Some (newAdminData now firebaseUser))"
proof -
  note login = loginWithGoogle_first [OF assms, of now]
  have result: "\<exists>response. fst (loginWithGoogle env (Inr firebaseUser) now s) = Inr response
                  \<and> role (responseUser response) = Admin"
    by (simp add: login loginWithGoogle_token_def case_prod_beta newAdminUser_def)
  have document: "admins (snd (loginWithGoogle env (Inr firebaseUser) now s))
                    (fbUid firebaseUser) = Some (newAdminData now firebaseUser)"
    by (simp add: login loginWithGoogle_token_def case_prod_beta setDoc_def)
  have observer: "currentUser s = Some firebaseUser \<longrightarrow>
                    fst (onAuthChange env now s) = Some (newAdminUser now firebaseUser)
                    \<and> admins (snd (onAuthChange env now s)) (fbUid firebaseUser)
                        = Some (newAdminData now firebaseUser)"
    using assms
    by (simp add: onAuthChange_def getAdminData_def Let_def newAdminUser_def setDoc_def)
  show ?thesis
    using result document observer by (simp add: newAdminData_def)
qed

text \<open>
  A Google user the directory has never seen, with no allowed e-mail configured, is made
  an administrator by the login, and by the observer once the provider has signed the
  user in.
\<close>

theorem first_google_login_is_admin_witness:
  "\<not> emailNotAllowed None strangerUser
   \<and> admins strangerSignedIn (fbUid strangerUser) = None
   \<and> currentUser strangerSignedIn = Some strangerUser
   \<and> (\<exists>response. fst (loginWithGoogle None (Inr strangerUser) 1000 strangerSignedIn)
                      = Inr response
          \<and> role (responseUser response) = Admin)
   \<and> map_option role
        (admins (snd (loginWithGoogle None (Inr strangerUser) 1000 strangerSignedIn)) ''uid-2'')
       = Some Admin
   \<and> map_option role (fst (onAuthChange None 1000 strangerSignedIn)) = Some Admin
   \<and> map_option role (admins (snd (onAuthChange None 1000 strangerSignedIn)) ''uid-2'')
       = Some Admin"
proof -
  have permitted: "\<not> emailNotAllowed None strangerUser"
    by (simp add: emailNotAllowed_def)
  have unknown: "admins strangerSignedIn (fbUid strangerUser) = None"
    by (simp add: strangerSignedIn_def worldWith_def strangerUser_def)
  have signed: "currentUser strangerSignedIn = Some strangerUser"
    by (simp add: strangerSignedIn_def signIn_def)
  have uid: "fbUid strangerUser = ''uid-2''"
    by (simp add: strangerUser_def)
  show ?thesis
    using permitted unknown signed
      first_google_login_is_admin [OF permitted unknown, of 1000]
    by (simp add: uid newAdminUser_def newAdminData_def)
qed

section \<open>The allowed e-mail\<close>

lemma currentUser_createAuditLog [simp]:
  "currentUser (createAuditLog act em st rsn now s) = currentUser s"
  by (simp add: createAuditLog_def Let_def split: sum.splits)

lemma currentUser_signOut [simp]: "currentUser (signOut s) = None"
  by (simp add: signOut_def)






section \<open>Audit entries per call\<close>

lemma userAgent_signIn [simp]: "userAgent (signIn now fu s) = userAgent s"
  by (simp add: signIn_def)

lemma userAgent_updateDoc [simp]: "userAgent (updateDoc k f s) = userAgent s"
  by (simp add: updateDoc_def split: option.splits)

lemma userAgent_setDoc [simp]: "userAgent (setDoc k d s) = userAgent s"
  by (simp add: setDoc_def)

lemma auditWrites_loginWithEmail_reset:
  assumes "CHR ''/'' \<notin> set em"
  shows "auditWrites (snd (loginWithEmail_reset now em fu a s)) =
     auditWrites s @
       [\<lparr>action = ''login_success'', logEmail = em, ipAddress = ''unknown'',
         logUserAgent = userAgent s, status = Success, reason = ''Successful login'',
         logTimestamp = now\<rparr>]"
  by (simp add: loginWithEmail_reset_def Let_def case_prod_beta
        auditWrites_createAuditLog [OF assms])

lemma auditWrites_loginWithGoogle_token [simp]:
  "auditWrites (snd (loginWithGoogle_token now fu a s)) = auditWrites s"
  by (simp add: loginWithGoogle_token_def case_prod_beta)

text \<open>A login with e-mail and password succeeds for the address written into it only.\<close>

lemma loginWithEmail_success_email:
  assumes "succeeded (fst (loginWithEmail idp now em pw s))"
  shows "em = allowedAdminEmail"
proof -
  obtain firebaseUser d where "idp em pw = Inr firebaseUser"
    and "admins s (fbUid firebaseUser) = Some d"
    using assms by (rule loginWithEmail_success_account)
  then show ?thesis
    using assms loginWithEmail_succeeded_iff [of idp em pw firebaseUser s d now] by simp
qed

lemma loginWithEmail_success_writes:
  assumes "succeeded (fst (loginWithEmail idp now em pw s))"
  shows "auditWrites (snd (loginWithEmail idp now em pw s)) =
           auditWrites s @
             [\<lparr>action = ''login_success'', logEmail = em, ipAddress = ''unknown'',
               logUserAgent = userAgent s, status = Success, reason = ''Successful login'',
               logTimestamp = now\<rparr>]"
proof -
  note body = loginWithEmail_success_try [OF assms]
  have "em = allowedAdminEmail"
    using assms by (rule loginWithEmail_success_email)
  then have plain: "CHR ''/'' \<notin> set em"
    by (simp add: allowedAdminEmail_def)
  have "succeeded (fst (loginWithEmail_try idp now em pw s))"
    using assms unfolding body .
  then have "auditWrites (snd (loginWithEmail_try idp now em pw s)) =
           auditWrites s @
             [\<lparr>action = ''login_success'', logEmail = em, ipAddress = ''unknown'',
               logUserAgent = userAgent s, status = Success, reason = ''Successful login'',
               logTimestamp = now\<rparr>]"
    using plain
    by (auto simp: loginWithEmail_try_def succeeded_def Let_def
          auditWrites_loginWithEmail_reset
        split: sum.splits option.splits if_splits)
  then show ?thesis
    unfolding body .
qed

lemma loginWithEmail_rejected_writes:
  assumes "idp em pw = Inl (code, msg)" and "CHR ''/'' \<notin> set em"
  shows "\<exists>entry. auditWrites (snd (loginWithEmail idp now em pw s)) = auditWrites s @ [entry]
           \<and> action entry = ''login_attempt'' \<and> logEmail entry = em
           \<and> (status entry = Failed \<or> status entry = Blocked)"
proof -
  have caught: "loginWithEmail idp now em pw s
                  = loginWithEmail_catch now em (AuthError code msg) s"
    using assms(1) by (simp add: loginWithEmail_def loginWithEmail_try_def)
  show ?thesis
  proof (cases "code = ''auth/wrong-password'' \<or> code = ''auth/invalid-credential''")
    case True
    show ?thesis
      unfolding caught loginWithEmail_catch_plain [OF assms(2) True]
      using assms(2)
      by (simp add: auditWrites_createAuditLog Let_def split: option.splits)
  next
    case False
    then show ?thesis
      unfolding caught using assms(2)
      by (simp add: loginWithEmail_catch_def auditWrites_createAuditLog)
  qed
qed

lemma loginWithGoogle_success_writes:
  assumes "succeeded (fst (loginWithGoogle env (Inr googleUser) now s))"
      and "CHR ''/'' \<notin> set (orElse (fbEmail googleUser) ''unknown'')"
  shows "\<exists>entry. auditWrites (snd (loginWithGoogle env (Inr googleUser) now s))
                    = auditWrites s @ [entry]
           \<and> action entry = ''google_oauth'' \<and> status entry = Success"
proof -
  note body = loginWithGoogle_success_try [OF assms(1)]
  have "succeeded (fst (loginWithGoogle_try env (Inr googleUser) now s))"
    using assms(1) unfolding body .
  then have "\<exists>entry. auditWrites (snd (loginWithGoogle_try env (Inr googleUser) now s))
                        = auditWrites s @ [entry]
               \<and> action entry = ''google_oauth'' \<and> status entry = Success"
    using assms(2)
    by (auto simp: loginWithGoogle_try_def succeeded_def Let_def auditWrites_createAuditLog
        split: option.splits if_splits)
  then show ?thesis
    unfolding body .
qed

lemma firebaseLogout_writes:
  assumes "currentUser s = Some firebaseUser" and "fbEmail firebaseUser = Some em"
      and "em \<noteq> []" and "CHR ''/'' \<notin> set em"
  shows "auditWrites (firebaseLogout now s) =
           auditWrites s @
             [\<lparr>action = ''logout'', logEmail = em, ipAddress = ''unknown'',
               logUserAgent = userAgent s, status = Success, reason = ''User logged out'',
               logTimestamp = now\<rparr>]"
  using assms
  by (simp add: firebaseLogout_def orElse_def auditWrites_createAuditLog)

lemma handleLogin_rate_limited:
  assumes "\<not> allowed (checkRateLimit (login_attempts s) em now)"
      and "filter (\<lambda>c. \<not> isSpace c) em \<noteq> []" and "pw \<noteq> []"
  shows "snd (handleLogin idp now em pw s) = s"
    and "\<exists>wait. fst (handleLogin idp now em pw s) = RateLimited wait"
  using assms by (simp_all add: handleLogin_def Let_def)

text \<open>
  The block by an active lock is logged twice: the \<^verbatim>\<open>try\<close> block writes the entry of the
  block and throws, and the \<^verbatim>\<open>catch\<close> block of the same function logs the error it has
  caught before it rethrows it.
\<close>

lemma loginWithEmail_locked_writes:
  assumes "idp em pw = Inr firebaseUser" and "admins s (fbUid firebaseUser) = Some d"
      and "em = allowedAdminEmail" and "isActive d"
      and "isLocked d" and "lockedUntil d = Some lockedUntilTime" and "now < lockedUntilTime"
  shows "map status (auditWrites (snd (loginWithEmail idp now em pw s)))
           = map status (auditWrites s) @ [Blocked, Failed]"
proof -
  have plain: "CHR ''/'' \<notin> set em"
    using assms(3) by (simp add: allowedAdminEmail_def)
  show ?thesis
    using assms plain
    by (simp add: loginWithEmail_def loginWithEmail_try_def loginWithEmail_catch_def
          getAdminData_def auditWrites_createAuditLog Let_def)
qed

text \<open>
  Where \<^verbatim>\<open>doc\<close> refuses the id of the entry, which it does when the e-mail has \<^verbatim>\<open>//\<close> in it
  or an odd number of segments after its first \<^verbatim>\<open>/\<close>, \<^verbatim>\<open>createAuditLog\<close> writes nothing.
\<close>

lemma stringIncludes_after_plain:
  "CHR ''/'' \<notin> set p \<Longrightarrow> stringIncludes (p @ k) ''//'' = stringIncludes k ''//''"
  by (induction p) auto

lemma createAuditLog_slash:
  assumes "stringIncludes em ''//''
           \<or> odd (length (filter (\<lambda>seg. seg \<noteq> []) (tl (splitSlash em))))"
  shows "createAuditLog act em st rsn now s = s"
proof -
  let ?p = "showInt now @ ''-''"
  have plain: "CHR ''/'' \<notin> set ?p"
    by (simp add: no_slash_showInt)
  have "stringIncludes (?p @ em) ''//'' = stringIncludes em ''//''"
    using plain by (rule stringIncludes_after_plain)
  moreover have "splitSlash (?p @ em) = (?p @ hd (splitSlash em)) # tl (splitSlash em)"
    using plain by (rule splitSlash_append)
  ultimately obtain err where "doc ''auditLogs'' (?p @ em) = Inl err"
    using assms by (auto simp: doc_def Let_def)
  then show ?thesis
    by (simp add: createAuditLog_refused)
qed

text \<open>
  C2, as the code has it. A login with the password that succeeds writes exactly one audit
  entry. So do, where the e-mail that is logged has no \<^verbatim>\<open>/\<close> in it, a login whose
  credentials the provider rejects, whether or not the failure locks the account, a login
  with Google that succeeds, and the logout of a signed-in user that has an e-mail. A
  login that the rate limiter of the login page blocks returns before the gateway is
  called: it writes no entry and changes nothing.
\<close>

theorem audit_entries_per_call:
  "(succeeded (fst (loginWithEmail idp now em pw s)) \<longrightarrow>
      (\<exists>entry. auditWrites (snd (loginWithEmail idp now em pw s)) = auditWrites s @ [entry]
         \<and> action entry = ''login_success'' \<and> status entry = Success))
   \<and> (idp em pw = Inl (code, msg) \<longrightarrow> CHR ''/'' \<notin> set em \<longrightarrow>
      (\<exists>entry. auditWrites (snd (loginWithEmail idp now em pw s)) = auditWrites s @ [entry]
         \<and> action entry = ''login_attempt''
         \<and> (status entry = Failed \<or> status entry = Blocked)))
   \<and> (succeeded (fst (loginWithGoogle env (Inr googleUser) now s)) \<longrightarrow>
      CHR ''/'' \<notin> set (orElse (fbEmail googleUser) ''unknown'') \<longrightarrow>
      (\<exists>entry. auditWrites (snd (loginWithGoogle env (Inr googleUser) now s))
                  = auditWrites s @ [entry]
         \<and> action entry = ''google_oauth'' \<and> status entry = Success))
   \<and> (currentUser s = Some firebaseUser \<longrightarrow> fbEmail firebaseUser = Some address
        \<longrightarrow> address \<noteq> [] \<longrightarrow> CHR ''/'' \<notin> set address \<longrightarrow>
      (\<exists>entry. auditWrites (firebaseLogout now s) = auditWrites s @ [entry]
         \<and> action entry = ''logout'' \<and> status entry = Success))
   \<and> (\<not> allowed (checkRateLimit (login_attempts a) em now)
        \<longrightarrow> filter (\<lambda>c. \<not> isSpace c) em \<noteq> [] \<longrightarrow> pw \<noteq> [] \<longrightarrow>
      snd (handleLogin idp now em pw a) = a)"
proof (intro conjI impI)
  assume "succeeded (fst (loginWithEmail idp now em pw s))"
  then show "\<exists>entry. auditWrites (snd (loginWithEmail idp now em pw s)) = auditWrites s @ [entry]
               \<and> action entry = ''login_success'' \<and> status entry = Success"
    by (simp add: loginWithEmail_success_writes)
next
  assume "idp em pw = Inl (code, msg)" and "CHR ''/'' \<notin> set em"
  then obtain entry where
    "auditWrites (snd (loginWithEmail idp now em pw s)) = auditWrites s @ [entry]
       \<and> action entry = ''login_attempt'' \<and> logEmail entry = em
       \<and> (status entry = Failed \<or> status entry = Blocked)"
    using loginWithEmail_rejected_writes [of idp em pw code msg now s] by blast
  then show "\<exists>entry. auditWrites (snd (loginWithEmail idp now em pw s)) = auditWrites s @ [entry]
               \<and> action entry = ''login_attempt''
               \<and> (status entry = Failed \<or> status entry = Blocked)"
    by blast
next
  assume "succeeded (fst (loginWithGoogle env (Inr googleUser) now s))"
    and "CHR ''/'' \<notin> set (orElse (fbEmail googleUser) ''unknown'')"
  then show "\<exists>entry. auditWrites (snd (loginWithGoogle env (Inr googleUser) now s))
                        = auditWrites s @ [entry]
               \<and> action entry = ''google_oauth'' \<and> status entry = Success"
    by (rule loginWithGoogle_success_writes)
next
  assume "currentUser s = Some firebaseUser" and "fbEmail firebaseUser = Some address"
    and "address \<noteq> []" and "CHR ''/'' \<notin> set address"
  then show "\<exists>entry. auditWrites (firebaseLogout now s) = auditWrites s @ [entry]
               \<and> action entry = ''logout'' \<and> status entry = Success"
    by (simp add: firebaseLogout_writes)
next
  assume "\<not> allowed (checkRateLimit (login_attempts a) em now)"
    and "filter (\<lambda>c. \<not> isSpace c) em \<noteq> []" and "pw \<noteq> []"
  then show "snd (handleLogin idp now em pw a) = a"
    by (rule handleLogin_rate_limited(1))
qed

lemma fiveAttempts_blocked:
  "checkRateLimit fiveAttempts ''b@x.com'' 600000
     = \<lparr>allowed = False, remainingTime = Some 300000\<rparr>"
  by (simp add: fiveAttempts_eq checkRateLimit_def parseStored_def Let_def
        RATE_LIMIT_MAX_ATTEMPTS_def RATE_LIMIT_WINDOW_MS_def)

theorem audit_entries_per_call_witness:
  "succeeded (fst (loginWithEmail exampleIdp 1000 allowedAdminEmail ''secret''
                     (worldWith exampleAdmin)))
   \<and> map action (auditWrites (snd (loginWithEmail exampleIdp 1000 allowedAdminEmail ''secret''
                                     (worldWith exampleAdmin)))) = [''login_success'']
   \<and> exampleIdp allowedAdminEmail ''wrong''
       = Inl (''auth/invalid-credential'', ''Firebase: Error (auth/invalid-credential).'')
   \<and> CHR ''/'' \<notin> set allowedAdminEmail
   \<and> map action (auditWrites (snd (loginWithEmail exampleIdp 1000 allowedAdminEmail ''wrong''
                                     (worldWith exampleAdmin)))) = [''login_attempt'']
   \<and> succeeded (fst (loginWithGoogle None (Inr strangerUser) 1000 (worldWith exampleAdmin)))
   \<and> CHR ''/'' \<notin> set (orElse (fbEmail strangerUser) ''unknown'')
   \<and> map action (auditWrites (snd (loginWithGoogle None (Inr strangerUser) 1000
                                     (worldWith exampleAdmin)))) = [''google_oauth'']
   \<and> currentUser strangerSignedIn = Some strangerUser
   \<and> fbEmail strangerUser = Some ''someone@gmail.com'' \<and> ''someone@gmail.com'' \<noteq> []
   \<and> CHR ''/'' \<notin> set ''someone@gmail.com''
   \<and> map action (auditWrites (firebaseLogout 1000 strangerSignedIn)) = [''logout'']
   \<and> \<not> allowed (checkRateLimit (login_attempts (appWith exampleAdmin fiveAttempts))
                   ''b@x.com'' 600000)
   \<and> filter (\<lambda>c. \<not> isSpace c) ''b@x.com'' \<noteq> [] \<and> ''secret'' \<noteq> []
   \<and> snd (handleLogin exampleIdp 600000 ''b@x.com'' ''secret''
             (appWith exampleAdmin fiveAttempts)) = appWith exampleAdmin fiveAttempts"
proof -
  have signed: "exampleIdp allowedAdminEmail ''secret'' = Inr exampleUser"
    by (simp add: exampleIdp_def)
  have stored: "admins (worldWith exampleAdmin) (fbUid exampleUser) = Some exampleAdmin"
    by (simp add: worldWith_def exampleUser_def)
  have password: "succeeded (fst (loginWithEmail exampleIdp 1000 allowedAdminEmail ''secret''
                                    (worldWith exampleAdmin)))"
    using loginWithEmail_succeeded_iff
            [where idp = exampleIdp and em = allowedAdminEmail and pw = "''secret''",
             OF signed stored, of 1000]
    by (simp add: exampleAdmin_def)
  have rejected: "exampleIdp allowedAdminEmail ''wrong''
                    = Inl (''auth/invalid-credential'',
                           ''Firebase: Error (auth/invalid-credential).'')"
    by (simp add: exampleIdp_def)
  have plain: "CHR ''/'' \<notin> set allowedAdminEmail"
    by (simp add: allowedAdminEmail_def)
  have permitted: "\<not> emailNotAllowed None strangerUser"
    by (simp add: emailNotAllowed_def)
  have unknown: "admins (worldWith exampleAdmin) (fbUid strangerUser) = None"
    by (simp add: worldWith_def strangerUser_def)
  have google: "succeeded (fst (loginWithGoogle None (Inr strangerUser) 1000
                                  (worldWith exampleAdmin)))"
    using loginWithGoogle_first [OF permitted unknown, of 1000]
    by (simp add: succeeded_def loginWithGoogle_token_def case_prod_beta)
  have logged: "CHR ''/'' \<notin> set (orElse (fbEmail strangerUser) ''unknown'')"
    by (simp add: strangerUser_def orElse_def)
  have user: "currentUser strangerSignedIn = Some strangerUser"
    by (simp add: strangerSignedIn_def signIn_def)
  have address: "fbEmail strangerUser = Some ''someone@gmail.com''"
    by (simp add: strangerUser_def)
  have limited: "\<not> allowed (checkRateLimit (login_attempts (appWith exampleAdmin fiveAttempts))
                              ''b@x.com'' 600000)"
    by (simp add: appWith_def fiveAttempts_blocked)
  have typed: "filter (\<lambda>c. \<not> isSpace c) ''b@x.com'' \<noteq> []"
    by (simp add: isSpace_def)
  have empty: "auditWrites (worldWith exampleAdmin) = []"
       "auditWrites strangerSignedIn = []"
    by (simp_all add: worldWith_def strangerSignedIn_def)
  have w1: "map action (auditWrites (snd (loginWithEmail exampleIdp 1000 allowedAdminEmail
                                           ''secret'' (worldWith exampleAdmin))))
              = [''login_success'']"
    using password
      audit_entries_per_call
        [where idp = exampleIdp and now = 1000 and em = allowedAdminEmail
           and pw = "''secret''" and s = "worldWith exampleAdmin", THEN conjunct1]
    by (auto simp: empty)
  have w2: "map action (auditWrites (snd (loginWithEmail exampleIdp 1000 allowedAdminEmail
                                           ''wrong'' (worldWith exampleAdmin))))
              = [''login_attempt'']"
    using rejected plain
      audit_entries_per_call
        [where idp = exampleIdp and now = 1000 and em = allowedAdminEmail
           and pw = "''wrong''" and s = "worldWith exampleAdmin"
           and code = "''auth/invalid-credential''"
           and msg = "''Firebase: Error (auth/invalid-credential).''",
         THEN conjunct2, THEN conjunct1]
    by (auto simp: empty)
  have w3: "map action (auditWrites (snd (loginWithGoogle None (Inr strangerUser) 1000
                                           (worldWith exampleAdmin)))) = [''google_oauth'']"
    using google logged
      audit_entries_per_call
        [where now = 1000 and s = "worldWith exampleAdmin" and env = None
           and googleUser = strangerUser,
         THEN conjunct2, THEN conjunct2, THEN conjunct1]
    by (auto simp: empty)
  have w4: "map action (auditWrites (firebaseLogout 1000 strangerSignedIn)) = [''logout'']"
    using user address
      audit_entries_per_call
        [where now = 1000 and s = strangerSignedIn and firebaseUser = strangerUser
           and address = "''someone@gmail.com''",
         THEN conjunct2, THEN conjunct2, THEN conjunct2, THEN conjunct1]
    by (auto simp: empty)
  have w5: "snd (handleLogin exampleIdp 600000 ''b@x.com'' ''secret''
                   (appWith exampleAdmin fiveAttempts)) = appWith exampleAdmin fiveAttempts"
    using limited typed
      audit_entries_per_call
        [where idp = exampleIdp and now = 600000 and em = "''b@x.com''" and pw = "''secret''"
           and a = "appWith exampleAdmin fiveAttempts",
         THEN conjunct2, THEN conjunct2, THEN conjunct2, THEN conjunct2]
    by simp
  show ?thesis
    using password rejected plain google logged user address limited typed w1 w2 w3 w4 w5
    by simp
qed

text \<open>
  C2 as stated fails. The key \<^verbatim>\<open>b@x.com\<close> has five attempts in the window; the login page
  answers the sixth with the time to wait, and no audit entry has been written.
\<close>

theorem rate_limited_login_writes_nothing:
  "fst (handleLogin exampleIdp 600000 ''b@x.com'' ''secret'' (appWith exampleAdmin fiveAttempts))
     = RateLimited 300000
   \<and> auditWrites (appWith exampleAdmin fiveAttempts) = []
   \<and> auditWrites (snd (handleLogin exampleIdp 600000 ''b@x.com'' ''secret''
                         (appWith exampleAdmin fiveAttempts))) = []"
  by (simp add: handleLogin_def appWith_def fiveAttempts_blocked isSpace_def)

text \<open>
  An e-mail with one \<^verbatim>\<open>/\<close> in it: the provider rejects the credentials, \<^verbatim>\<open>doc\<close> refuses
  both the reference into \<^verbatim>\<open>admins\<close> and the id of the audit entry, and the login is
  answered with \<open>InvalidCredentials\<close> and no audit entry.
\<close>

lemma showNat_three: "showNat (Suc (Suc (Suc 0))) = ''3''"
proof -
  have "char_of (51 :: nat) = CHR ''3''"
    by code_simp
  then show ?thesis
    by (simp add: showNat.simps [of "Suc (Suc (Suc 0))"])
qed

lemma doc_admins_slash:
  "doc ''admins'' ''a/b@x.com'' =
     Inl (FirestoreError
            (''Invalid document reference. Document references must have an even ''
               @ ''number of segments, but admins/a/b@x.com has 3.''))"
  by (simp add: doc_def showNat_three)

theorem slash_email_writes_nothing:
  "exampleIdp ''a/b@x.com'' ''wrong''
     = Inl (''auth/invalid-credential'', ''Firebase: Error (auth/invalid-credential).'')
   \<and> loginWithEmail exampleIdp 1000 ''a/b@x.com'' ''wrong'' (worldWith exampleAdmin)
       = (Inl InvalidCredentials, worldWith exampleAdmin)
   \<and> auditWrites (worldWith exampleAdmin) = []"
proof -
  have rejected: "exampleIdp ''a/b@x.com'' ''wrong''
     = Inl (''auth/invalid-credential'', ''Firebase: Error (auth/invalid-credential).'')"
    by (simp add: exampleIdp_def allowedAdminEmail_def)
  have refused: "createAuditLog act ''a/b@x.com'' st rsn now s = s" for act st rsn now
    and s :: world
    by (rule createAuditLog_slash) simp
  have "loginWithEmail exampleIdp 1000 ''a/b@x.com'' ''wrong'' (worldWith exampleAdmin)
          = (Inl InvalidCredentials, worldWith exampleAdmin)"
    by (simp add: loginWithEmail_def loginWithEmail_try_def loginWithEmail_catch_def rejected
          doc_admins_slash refused)
  then show ?thesis
    using rejected by (simp add: worldWith_def)
qed

section \<open>The definitions to unfold when an example is evaluated\<close>



section \<open>The client's fields under the gateway\<close>

text \<open>
  The functions of the authentication service work on the backend and the provider's
  session; they leave every field of the client as it is.
\<close>

lemma client_fields:
  fixes a b :: app
  assumes "world.more a = world.more b"
  shows "tokenRefreshInterval a = tokenRefreshInterval b"
    and "intervals a = intervals b"
    and "nextTimerId a = nextTimerId b"
    and "login_attempts a = login_attempts b"
    and "user a = user b"
    and "token a = token b"
    and "isAuthenticated a = isAuthenticated b"
  using assms by (cases a; cases b; simp)+

lemma more_createAuditLog [simp]:
  "world.more (createAuditLog act em st rsn now s) = world.more s"
  by (simp add: createAuditLog_def Let_def split: sum.splits)

lemma more_signIn [simp]: "world.more (signIn now fu s) = world.more s"
  by (simp add: signIn_def)

lemma more_signOut [simp]: "world.more (signOut s) = world.more s"
  by (simp add: signOut_def)

lemma more_updateDoc [simp]: "world.more (updateDoc k f s) = world.more s"
  by (simp add: updateDoc_def split: option.splits)

lemma more_setDoc [simp]: "world.more (setDoc k d s) = world.more s"
  by (simp add: setDoc_def)

lemma more_getIdToken [simp]: "world.more (snd (getIdToken force now fu s)) = world.more s"
  by (simp add: getIdToken_def split: option.splits)

lemma more_loginWithEmail_reset [simp]:
  "world.more (snd (loginWithEmail_reset now em fu a s)) = world.more s"
  by (simp add: loginWithEmail_reset_def Let_def case_prod_beta)

lemma more_loginWithEmail_try [simp]:
  "world.more (snd (loginWithEmail_try idp now em pw s)) = world.more s"
  by (simp add: loginWithEmail_try_def Let_def split: sum.splits option.splits)

lemma more_loginWithEmail_catch [simp]:
  "world.more (snd (loginWithEmail_catch now em err s)) = world.more s"
  by (cases err)
     (simp_all add: loginWithEmail_catch_def Let_def split: option.splits sum.splits)

lemma more_loginWithEmail [simp]:
  "world.more (snd (loginWithEmail idp now em pw s)) = world.more s"
proof (cases "loginWithEmail_try idp now em pw s")
  case (Pair r s')
  then have "world.more s' = world.more s"
    using more_loginWithEmail_try [of idp now em pw s] by simp
  with Pair show ?thesis
    by (cases r) (simp_all add: loginWithEmail_def)
qed

lemma more_loginWithGoogle_token [simp]:
  "world.more (snd (loginWithGoogle_token now fu a s)) = world.more s"
  by (simp add: loginWithGoogle_token_def case_prod_beta)

lemma more_loginWithGoogle_try [simp]:
  "world.more (snd (loginWithGoogle_try env popup now s)) = world.more s"
  by (simp add: loginWithGoogle_try_def Let_def split: sum.splits option.splits)

lemma more_loginWithGoogle_catch [simp]:
  "world.more (snd (loginWithGoogle_catch now err s)) = world.more s"
  by (cases err) (simp_all add: loginWithGoogle_catch_def)

lemma more_loginWithGoogle [simp]:
  "world.more (snd (loginWithGoogle env popup now s)) = world.more s"
proof (cases "loginWithGoogle_try env popup now s")
  case (Pair r s')
  then have "world.more s' = world.more s"
    using more_loginWithGoogle_try [of env popup now s] by simp
  with Pair show ?thesis
    by (cases r) (simp_all add: loginWithGoogle_def)
qed

lemma more_firebaseLogout [simp]: "world.more (firebaseLogout now s) = world.more s"
  by (simp add: firebaseLogout_def split: option.splits)


section \<open>The refresh timer\<close>

lemma timerInv_more:
  fixes a b :: app
  assumes "world.more a = world.more b"
  shows "timerInv a = timerInv b"
  by (simp only: timerInv_def client_fields(1,2,3) [OF assms])


lemma filter_only_timer:
  "map fst timers = [i] \<Longrightarrow> filter (\<lambda>timer. fst timer \<noteq> i) timers = []"
  by (cases timers) auto

lemma setupTokenRefresh_intervals:
  assumes "timerInv s"
  shows "intervals (setupTokenRefresh now s) = [(nextTimerId s, now + refreshDelay)]"
    and "tokenRefreshInterval (setupTokenRefresh now s) = Some (nextTimerId s)"
    and "nextTimerId (setupTokenRefresh now s) = nextTimerId s + 1"
  using assms
  by (auto simp: timerInv_def setupTokenRefresh_def setInterval_def clearInterval_def
        filter_only_timer
      split: option.splits)




lemma timerInv_cong:
  assumes "tokenRefreshInterval a = tokenRefreshInterval b"
      and "intervals a = intervals b" and "nextTimerId a = nextTimerId b"
  shows "timerInv a = timerInv b"
  by (simp only: timerInv_def assms)


lemma intervals_refreshCallback [simp]:
  "intervals (refreshCallback ok now s) = intervals s"
  by (auto simp: refreshCallback_def getIdToken_def split: option.splits)

lemma refreshCallback_fields [simp]:
  "tokenRefreshInterval (refreshCallback ok now s) = tokenRefreshInterval s"
  "nextTimerId (refreshCallback ok now s) = nextTimerId s"
  "currentUser (refreshCallback ok now s) = currentUser s"
  by (simp_all add: refreshCallback_def getIdToken_def case_prod_beta split: option.splits)



section \<open>The store's actions and the timer\<close>

lemma login_cases:
  obtains (failed) err s1 where
      "loginWithEmail idp now em pw (s\<lparr>loading := True\<rparr>) = (Inl err, s1)"
      "login idp now em pw s =
         (Inl (if message err = [] then ''Login failed'' else message err), s1\<lparr>loading := False\<rparr>)"
  | (ok) response s1 where
      "loginWithEmail idp now em pw (s\<lparr>loading := True\<rparr>) = (Inr response, s1)"
      "login idp now em pw s =
         (Inr (),
          setupTokenRefresh now
            (s1\<lparr>user := Some (adminUserToUser (responseUser response)),
                token := Some (responseToken response),
                isAuthenticated := True, loading := False\<rparr>))"
proof (cases "loginWithEmail idp now em pw (s\<lparr>loading := True\<rparr>)")
  case (Pair r s1)
  show thesis
  proof (cases r)
    case (Inl err)
    with Pair show thesis by (intro failed [of err s1]) (simp_all add: login_def)
  next
    case (Inr response)
    with Pair show thesis by (intro ok [of response s1]) (simp_all add: login_def)
  qed
qed

lemma loginWithGoogle_store_cases:
  obtains (failed) err s1 where
      "loginWithGoogle env popup now (s\<lparr>loading := True\<rparr>) = (Inl err, s1)"
      "loginWithGoogle_store env popup now s =
         (Inl (if message err = [] then ''Google login failed'' else message err),
          s1\<lparr>loading := False\<rparr>)"
  | (ok) response s1 where
      "loginWithGoogle env popup now (s\<lparr>loading := True\<rparr>) = (Inr response, s1)"
      "loginWithGoogle_store env popup now s =
         (Inr (),
          setupTokenRefresh now
            (s1\<lparr>user := Some (adminUserToUser (responseUser response)),
                token := Some (responseToken response),
                isAuthenticated := True, loading := False\<rparr>))"
proof (cases "loginWithGoogle env popup now (s\<lparr>loading := True\<rparr>)")
  case (Pair r s1)
  show thesis
  proof (cases r)
    case (Inl err)
    with Pair show thesis
      by (intro failed [of err s1]) (simp_all add: loginWithGoogle_store_def)
  next
    case (Inr response)
    with Pair show thesis
      by (intro ok [of response s1]) (simp_all add: loginWithGoogle_store_def)
  qed
qed








section \<open>A session and its token\<close>

lemma session_createAuditLog [simp]:
  "cachedToken (createAuditLog act em st rsn now s) = cachedToken s"
  by (simp add: createAuditLog_def Let_def split: sum.splits)

lemma session_updateDoc [simp]:
  "cachedToken (updateDoc k f s) = cachedToken s"
  "currentUser (updateDoc k f s) = currentUser s"
  by (simp_all add: updateDoc_def split: option.splits)

lemma session_setDoc [simp]:
  "cachedToken (setDoc k d s) = cachedToken s"
  "currentUser (setDoc k d s) = currentUser s"
  by (simp_all add: setDoc_def)

lemma session_signIn [simp]:
  "cachedToken (signIn now fu s) = Some (issueToken now fu)"
  "currentUser (signIn now fu s) = Some fu"
  by (simp_all add: signIn_def)

text \<open>Right after the sign-in the cached token is the one just issued.\<close>

lemma getIdToken_cached:
  "cachedToken s = Some (issueToken now fu) \<Longrightarrow> getIdToken False now fu s = (issueToken now fu, s)"
  by (simp add: getIdToken_def issueToken_def tokenLifetime_def)

lemma loginWithEmail_reset_session:
  assumes "cachedToken s = Some (issueToken now fu)" and "currentUser s = Some fu"
      and "loginWithEmail_reset now em fu a s = (Inr response, s1)"
  shows "currentUser s1 = Some fu \<and> responseToken response = issueToken now fu"
  using assms
  by (auto simp: loginWithEmail_reset_def Let_def getIdToken_cached)

lemma loginWithGoogle_token_session:
  assumes "cachedToken s = Some (issueToken now fu)" and "currentUser s = Some fu"
      and "loginWithGoogle_token now fu a s = (Inr response, s1)"
  shows "currentUser s1 = Some fu \<and> responseToken response = issueToken now fu"
  using assms
  by (auto simp: loginWithGoogle_token_def getIdToken_cached)

lemma loginWithEmail_session:
  assumes "loginWithEmail idp now em pw s = (Inr response, s1)"
  shows "\<exists>fu. currentUser s1 = Some fu \<and> responseToken response = issueToken now fu"
proof -
  have "succeeded (fst (loginWithEmail idp now em pw s))"
    by (simp add: assms succeeded_def)
  then have "loginWithEmail idp now em pw s = loginWithEmail_try idp now em pw s"
    by (rule loginWithEmail_success_try)
  with assms have body: "loginWithEmail_try idp now em pw s = (Inr response, s1)"
    by simp
  show ?thesis
  proof (cases "idp em pw")
    case (Inl failure)
    with body show ?thesis
      by (cases failure) (simp add: loginWithEmail_try_def)
  next
    case (Inr fu)
    from body Inr show ?thesis
      by (auto simp: loginWithEmail_try_def Let_def
          split: option.splits if_splits
          dest!: loginWithEmail_reset_session [rotated 2])
  qed
qed

lemma loginWithGoogle_session:
  assumes "loginWithGoogle env popup now s = (Inr response, s1)"
  shows "\<exists>fu. currentUser s1 = Some fu \<and> responseToken response = issueToken now fu"
proof -
  have "succeeded (fst (loginWithGoogle env popup now s))"
    by (simp add: assms succeeded_def)
  then have "loginWithGoogle env popup now s = loginWithGoogle_try env popup now s"
    by (rule loginWithGoogle_success_try)
  with assms have body: "loginWithGoogle_try env popup now s = (Inr response, s1)"
    by simp
  show ?thesis
  proof (cases popup)
    case (Inl failure)
    with body show ?thesis
      by (cases failure) (simp add: loginWithGoogle_try_def)
  next
    case (Inr fu)
    from body Inr show ?thesis
      by (auto simp: loginWithGoogle_try_def Let_def
          split: option.splits if_splits
          dest!: loginWithGoogle_token_session [rotated 2])
  qed
qed

lemma setupTokenRefresh_session [simp]:
  "currentUser (setupTokenRefresh now s) = currentUser s"
  "token (setupTokenRefresh now s) = token s"
  by (simp_all add: setupTokenRefresh_def setInterval_def clearInterval_def Let_def
      split: option.splits)

text \<open>
  While the refresh succeeds, a store whose only timer is due at \<open>d\<close> and whose token was
  issued at \<open>d - refreshDelay\<close> or later holds a token that has not expired, at every time
  from \<open>d - refreshDelay\<close> on.
\<close>

lemma advanceTo_token_fresh:
  assumes "intervals s = [(i, d)]" and "currentUser s = Some fu" and "token s = Some tok"
      and "d - refreshDelay + tokenLifetime \<le> expiresAt tok"
      and "\<And>x. ok x" and "d - refreshDelay \<le> t"
  shows "\<exists>tok'. token (advanceTo ok t s) = Some tok' \<and> t < expiresAt tok'"
  using assms
proof (induction ok t s arbitrary: d tok rule: advanceTo.induct)
  case (1 ok t s)
  show ?case
  proof (cases "d \<le> t")
    case False
    then have "advanceTo ok t s = s"
      using "1.prems"(1) by (subst advanceTo.simps) simp
    moreover have "t < expiresAt tok"
      using False "1.prems"(4) by (simp add: refreshDelay_def tokenLifetime_def)
    ultimately show ?thesis
      using "1.prems"(3) by simp
  next
    case True
    let ?s' = "refreshCallback ok d (s\<lparr>intervals := reschedule (i, d) (intervals s)\<rparr>)"
    have due: "nextDue t (intervals s) = Some (i, d)"
      using True "1.prems"(1) by simp
    have step: "advanceTo ok t s = advanceTo ok t ?s'"
      using due by (subst advanceTo.simps) simp
    have timers: "intervals ?s' = [(i, d + refreshDelay)]"
      using "1.prems"(1) by simp
    have signed: "currentUser ?s' = Some fu"
      using "1.prems"(2) by simp
    have new: "token ?s' = Some (issueToken d fu)"
      using "1.prems"(2,5)
      by (simp add: refreshCallback_def getIdToken_def case_prod_beta split: option.splits)
    have "\<exists>tok'. token (advanceTo ok t ?s') = Some tok' \<and> t < expiresAt tok'"
    proof (rule "1.IH" [OF due, unfolded snd_conv, OF timers signed new])
      show "d + refreshDelay - refreshDelay + tokenLifetime \<le> expiresAt (issueToken d fu)"
        by (simp add: issueToken_def)
      show "ok x" for x by (rule "1.prems"(5))
      show "d + refreshDelay - refreshDelay \<le> t"
        using True by simp
    qed
    then show ?thesis
      by (simp add: step)
  qed
qed

lemma login_session:
  assumes "timerInv s" and "succeeded (fst (login idp now em pw s))"
  shows "\<exists>fu. intervals (snd (login idp now em pw s)) = [(nextTimerId s, now + refreshDelay)]
           \<and> currentUser (snd (login idp now em pw s)) = Some fu
           \<and> token (snd (login idp now em pw s)) = Some (issueToken now fu)"
proof (cases rule: login_cases [of idp now em pw s])
  case (failed err s1)
  with assms(2) show ?thesis
    by (simp add: succeeded_def)
next
  case (ok response s1)
  let ?s2 = "s1\<lparr>user := Some (adminUserToUser (responseUser response)),
                 token := Some (responseToken response),
                 isAuthenticated := True, loading := False\<rparr>"
  obtain fu where fu: "currentUser s1 = Some fu" "responseToken response = issueToken now fu"
    using loginWithEmail_session [OF ok(1)] by blast
  have more: "world.more s1 = world.more (s\<lparr>loading := True\<rparr>)"
    using more_loginWithEmail [of idp now em pw "s\<lparr>loading := True\<rparr>"] ok(1) by simp
  have "timerInv s1 = timerInv (s\<lparr>loading := True\<rparr>)"
    using more by (rule timerInv_more)
  then have inv: "timerInv ?s2"
    using assms(1) by (simp add: timerInv_def)
  have next_id: "nextTimerId ?s2 = nextTimerId s"
    using client_fields(3) [OF more] by simp
  show ?thesis
    using fu setupTokenRefresh_intervals(1) [OF inv, of now] next_id
    by (simp add: ok(2))
qed

lemma loginWithGoogle_store_session:
  assumes "timerInv s" and "succeeded (fst (loginWithGoogle_store env popup now s))"
  shows "\<exists>fu. intervals (snd (loginWithGoogle_store env popup now s))
                 = [(nextTimerId s, now + refreshDelay)]
           \<and> currentUser (snd (loginWithGoogle_store env popup now s)) = Some fu
           \<and> token (snd (loginWithGoogle_store env popup now s)) = Some (issueToken now fu)"
proof (cases rule: loginWithGoogle_store_cases [of env popup now s])
  case (failed err s1)
  with assms(2) show ?thesis
    by (simp add: succeeded_def)
next
  case (ok response s1)
  let ?s2 = "s1\<lparr>user := Some (adminUserToUser (responseUser response)),
                 token := Some (responseToken response),
                 isAuthenticated := True, loading := False\<rparr>"
  obtain fu where fu: "currentUser s1 = Some fu" "responseToken response = issueToken now fu"
    using loginWithGoogle_session [OF ok(1)] by blast
  have more: "world.more s1 = world.more (s\<lparr>loading := True\<rparr>)"
    using more_loginWithGoogle [of env popup now "s\<lparr>loading := True\<rparr>"] ok(1) by simp
  have "timerInv s1 = timerInv (s\<lparr>loading := True\<rparr>)"
    using more by (rule timerInv_more)
  then have inv: "timerInv ?s2"
    using assms(1) by (simp add: timerInv_def)
  have next_id: "nextTimerId ?s2 = nextTimerId s"
    using client_fields(3) [OF more] by simp
  show ?thesis
    using fu setupTokenRefresh_intervals(1) [OF inv, of now] next_id
    by (simp add: ok(2))
qed

lemma advanceTo_before_due:
  assumes "intervals s = [(i, d)]" and "t < d"
  shows "advanceTo ok t s = s"
  using assms by (subst advanceTo.simps) simp

lemma advanceTo_first_call:
  assumes "intervals s = [(i, d)]" and "currentUser s = Some fu" and "ok d"
      and "d \<le> t" and "t < d + refreshDelay"
  shows "token (advanceTo ok t s) = Some (issueToken d fu)"
proof -
  let ?s' = "refreshCallback ok d (s\<lparr>intervals := reschedule (i, d) (intervals s)\<rparr>)"
  have "nextDue t (intervals s) = Some (i, d)"
    using assms(1,4) by simp
  then have "advanceTo ok t s = advanceTo ok t ?s'"
    by (subst advanceTo.simps) simp
  moreover have "intervals ?s' = [(i, d + refreshDelay)]"
    using assms(1) by simp
  then have "advanceTo ok t ?s' = ?s'"
    using assms(5) by (rule advanceTo_before_due)
  moreover have "token ?s' = Some (issueToken d fu)"
    using assms(2,3)
    by (simp add: refreshCallback_def getIdToken_def case_prod_beta split: option.splits)
  ultimately show ?thesis by simp
qed

lemma keptFresh_session:
  assumes timers: "intervals s = [(i, t0 + refreshDelay)]"
      and signed: "currentUser s = Some fu"
      and issued: "token s = Some (issueToken t0 fu)"
      and ok: "\<And>x. ok x" and later: "t0 \<le> t"
  shows "keptFresh ok t0 t s"
proof -
  have a: "map snd (intervals s) = [t0 + refreshDelay]"
    by (simp add: timers)
  have b: "\<exists>tok. token s = Some tok \<and> expiresAt tok = t0 + tokenLifetime"
    by (simp add: issued issueToken_def)
  have c: "t < t0 + refreshDelay \<longrightarrow> token (advanceTo ok t s) = token s"
    by (simp add: advanceTo_before_due [OF timers])
  have d: "t0 + refreshDelay \<le> t \<and> t < t0 + 2 * refreshDelay \<longrightarrow>
            (\<exists>tok. token (advanceTo ok t s) = Some tok
                \<and> expiresAt tok = t0 + refreshDelay + tokenLifetime)"
  proof
    assume "t0 + refreshDelay \<le> t \<and> t < t0 + 2 * refreshDelay"
    then have "token (advanceTo ok t s) = Some (issueToken (t0 + refreshDelay) fu)"
      by (intro advanceTo_first_call [OF timers signed ok]) simp_all
    then show "\<exists>tok. token (advanceTo ok t s) = Some tok
                 \<and> expiresAt tok = t0 + refreshDelay + tokenLifetime"
      by (simp add: issueToken_def)
  qed
  have e: "\<exists>tok. token (advanceTo ok t s) = Some tok \<and> t < expiresAt tok"
  proof (rule advanceTo_token_fresh [OF timers signed issued])
    show "t0 + refreshDelay - refreshDelay + tokenLifetime \<le> expiresAt (issueToken t0 fu)"
      by (simp add: issueToken_def)
    show "ok x" for x by (rule ok)
    show "t0 + refreshDelay - refreshDelay \<le> t"
      using later by simp
  qed
  show ?thesis
    unfolding keptFresh_def using a b c d e by blast
qed

text \<open>
  C8. For every session that a login issues at \<open>t0\<close>, with the token lifetime of 60
  minutes, the store starts the refresh timer so that its first call is due at
  \<open>t0 + 45 minutes\<close>, the lifetime less a buffer of 15 minutes; and while every refresh
  succeeds, the token in the store has not expired at any time \<open>t\<close> from \<open>t0\<close> on: until
  the 45-minute mark it is the token of the login, and from that mark it is the token the
  timer has fetched.
\<close>

theorem refresh_before_expiry:
  assumes "timerInv s" and "\<forall>x. ok x" and "t0 \<le> t"
  shows "tokenLifetime = 60 * 60 * 1000
         \<and> refreshDelay = tokenLifetime - 15 * 60 * 1000
         \<and> (succeeded (fst (login idp t0 em pw s)) \<longrightarrow>
               keptFresh ok t0 t (snd (login idp t0 em pw s)))
         \<and> (succeeded (fst (loginWithGoogle_store env popup t0 s)) \<longrightarrow>
               keptFresh ok t0 t (snd (loginWithGoogle_store env popup t0 s)))"
proof (intro conjI impI)
  show "tokenLifetime = 60 * 60 * 1000"
    by (simp add: tokenLifetime_def)
  show "refreshDelay = tokenLifetime - 15 * 60 * 1000"
    by (simp add: refreshDelay_def tokenLifetime_def)
next
  assume "succeeded (fst (login idp t0 em pw s))"
  then obtain fu where
    "intervals (snd (login idp t0 em pw s)) = [(nextTimerId s, t0 + refreshDelay)]"
    "currentUser (snd (login idp t0 em pw s)) = Some fu"
    "token (snd (login idp t0 em pw s)) = Some (issueToken t0 fu)"
    using login_session [OF assms(1)] by blast
  then show "keptFresh ok t0 t (snd (login idp t0 em pw s))"
    using assms(2,3) by (intro keptFresh_session) simp_all
next
  assume "succeeded (fst (loginWithGoogle_store env popup t0 s))"
  then obtain fu where
    "intervals (snd (loginWithGoogle_store env popup t0 s))
       = [(nextTimerId s, t0 + refreshDelay)]"
    "currentUser (snd (loginWithGoogle_store env popup t0 s)) = Some fu"
    "token (snd (loginWithGoogle_store env popup t0 s)) = Some (issueToken t0 fu)"
    using loginWithGoogle_store_session [OF assms(1)] by blast
  then show "keptFresh ok t0 t (snd (loginWithGoogle_store env popup t0 s))"
    using assms(2,3) by (intro keptFresh_session) simp_all
qed

text \<open>
  The administrator logs in at 0, and a first-time user logs in with Google at 0. Ten
  minutes later the store holds the token of the login, which expires at 60 minutes;
  fifty minutes later each store holds the token fetched at the 45-minute mark, which
  expires at 105 minutes.
\<close>

lemma timerInv_appWith: "timerInv (appWith d stored)"
  by (simp add: timerInv_def appWith_def)

lemma login_succeeded:
  "succeeded (fst (login idp now em pw s))
     = succeeded (fst (loginWithEmail idp now em pw (s\<lparr>loading := True\<rparr>)))"
  by (cases rule: login_cases [of idp now em pw s]) (simp_all add: succeeded_def)

lemma loginWithGoogle_store_succeeded:
  "succeeded (fst (loginWithGoogle_store env popup now s))
     = succeeded (fst (loginWithGoogle env popup now (s\<lparr>loading := True\<rparr>)))"
  by (cases rule: loginWithGoogle_store_cases [of env popup now s])
     (simp_all add: succeeded_def)

theorem refresh_before_expiry_witness:
  "timerInv (appWith exampleAdmin None) \<and> (\<forall>x. (\<lambda>x. True) x) \<and> (0::time) \<le> 3000000
   \<and> succeeded (fst (login exampleIdp 0 allowedAdminEmail ''secret'' (appWith exampleAdmin None)))
   \<and> map snd (intervals (snd (login exampleIdp 0 allowedAdminEmail ''secret''
                                 (appWith exampleAdmin None)))) = [2700000]
   \<and> map_option expiresAt
        (token (advanceTo (\<lambda>x. True) 3000000
                  (snd (login exampleIdp 0 allowedAdminEmail ''secret''
                          (appWith exampleAdmin None))))) = Some 6300000
   \<and> (0::time) \<le> 600000
   \<and> map_option expiresAt
        (token (advanceTo (\<lambda>x. True) 600000
                  (snd (login exampleIdp 0 allowedAdminEmail ''secret''
                          (appWith exampleAdmin None))))) = Some 3600000
   \<and> succeeded (fst (loginWithGoogle_store None (Inr strangerUser) 0
                       (appWith exampleAdmin None)))
   \<and> map_option expiresAt
        (token (advanceTo (\<lambda>x. True) 3000000
                  (snd (loginWithGoogle_store None (Inr strangerUser) 0
                          (appWith exampleAdmin None))))) = Some 6300000"
proof -
  have inv: "timerInv (appWith exampleAdmin None)"
    by (rule timerInv_appWith)
  have signed: "exampleIdp allowedAdminEmail ''secret'' = Inr exampleUser"
    by (simp add: exampleIdp_def)
  have stored: "admins ((appWith exampleAdmin None)\<lparr>loading := True\<rparr>) (fbUid exampleUser)
                  = Some exampleAdmin"
    by (simp add: appWith_def exampleUser_def)
  have "succeeded (fst (loginWithEmail exampleIdp 0 allowedAdminEmail ''secret''
                          ((appWith exampleAdmin None)\<lparr>loading := True\<rparr>)))"
    using loginWithEmail_succeeded_iff
            [where idp = exampleIdp and em = allowedAdminEmail and pw = "''secret''",
             OF signed stored, of 0]
    by (simp add: exampleAdmin_def)
  then have password: "succeeded (fst (login exampleIdp 0 allowedAdminEmail ''secret''
                                         (appWith exampleAdmin None)))"
    by (simp only: login_succeeded)
  have permitted: "\<not> emailNotAllowed None strangerUser"
    by (simp add: emailNotAllowed_def)
  have unknown: "admins ((appWith exampleAdmin None)\<lparr>loading := True\<rparr>) (fbUid strangerUser)
                   = None"
    by (simp add: appWith_def strangerUser_def)
  have "succeeded (fst (loginWithGoogle None (Inr strangerUser) 0
                          ((appWith exampleAdmin None)\<lparr>loading := True\<rparr>)))"
    using loginWithGoogle_first [OF permitted unknown, of 0]
    by (simp add: succeeded_def loginWithGoogle_token_def case_prod_beta)
  then have google: "succeeded (fst (loginWithGoogle_store None (Inr strangerUser) 0
                                       (appWith exampleAdmin None)))"
    by (simp only: loginWithGoogle_store_succeeded)
  note fresh = refresh_before_expiry
    [where ok = "\<lambda>x. True" and ?t0.0 = 0 and t = 3000000 and idp = exampleIdp
       and em = allowedAdminEmail and pw = "''secret''" and env = None
       and popup = "Inr strangerUser", OF inv]
  note early = refresh_before_expiry
    [where ok = "\<lambda>x. True" and ?t0.0 = 0 and t = 600000 and idp = exampleIdp
       and em = allowedAdminEmail and pw = "''secret''" and env = None
       and popup = "Inr strangerUser", OF inv]
  show ?thesis
    using inv password google fresh early
    by (auto simp: keptFresh_def refreshDelay_def tokenLifetime_def)
qed

section \<open>Logout and the timer, over any use of the login page\<close>

lemma timerInv_login_attempts [simp]: "timerInv (s\<lparr>login_attempts := stored\<rparr>) = timerInv s"
  by (simp add: timerInv_def)











section \<open>Further properties of the gateway\<close>

text \<open>
  A login whose credentials the provider accepts, for an active account whose lock has
  not run out, is refused with \<open>Locked\<close> and the minutes left, rounded up; the session
  is signed out and the directory is left as it was.
\<close>

theorem locked_login_refused:
  assumes "idp em pw = Inr firebaseUser" and "admins s (fbUid firebaseUser) = Some d"
      and "em = allowedAdminEmail" and "isActive d"
      and "isLocked d" and "lockedUntil d = Some lockedUntilTime" and "now < lockedUntilTime"
  shows "fst (loginWithEmail idp now em pw s)
           = Inl (Locked (remainingMinutes lockedUntilTime now))
         \<and> 0 < remainingMinutes lockedUntilTime now
         \<and> lockedUntilTime - now \<le> remainingMinutes lockedUntilTime now * 60000
         \<and> remainingMinutes lockedUntilTime now * 60000 < lockedUntilTime - now + 60000
         \<and> admins (snd (loginWithEmail idp now em pw s)) = admins s
         \<and> currentUser (snd (loginWithEmail idp now em pw s)) = None"
proof -
  have refused: "fst (loginWithEmail idp now em pw s)
                   = Inl (Locked (remainingMinutes lockedUntilTime now))"
    using assms by (rule loginWithEmail_locked)
  have minutes: "0 < remainingMinutes lockedUntilTime now"
      "lockedUntilTime - now \<le> remainingMinutes lockedUntilTime now * 60000"
      "remainingMinutes lockedUntilTime now * 60000 < lockedUntilTime - now + 60000"
    using assms(7) unfolding remainingMinutes_def by linarith+
  have state: "admins (snd (loginWithEmail idp now em pw s)) = admins s
               \<and> currentUser (snd (loginWithEmail idp now em pw s)) = None"
    using assms
    by (simp add: loginWithEmail_def loginWithEmail_try_def loginWithEmail_catch_def
          getAdminData_def Let_def)
  show ?thesis
    using refused minutes state by simp
qed

theorem locked_login_refused_witness:
  "exampleIdp allowedAdminEmail ''secret'' = Inr exampleUser
   \<and> admins (worldWith lockedAdmin) (fbUid exampleUser) = Some lockedAdmin
   \<and> isActive lockedAdmin \<and> isLocked lockedAdmin \<and> lockedUntil lockedAdmin = Some 900000
   \<and> (600000 :: time) < 900000
   \<and> fst (loginWithEmail exampleIdp 600000 allowedAdminEmail ''secret'' (worldWith lockedAdmin))
       = Inl (Locked 5)
   \<and> currentUser (snd (loginWithEmail exampleIdp 600000 allowedAdminEmail ''secret''
                          (worldWith lockedAdmin))) = None"
proof -
  have signed: "exampleIdp allowedAdminEmail ''secret'' = Inr exampleUser"
    by (simp add: exampleIdp_def)
  have stored: "admins (worldWith lockedAdmin) (fbUid exampleUser) = Some lockedAdmin"
    by (simp add: worldWith_def exampleUser_def)
  have account: "isActive lockedAdmin" "isLocked lockedAdmin"
      "lockedUntil lockedAdmin = Some 900000"
    by (simp_all add: lockedAdmin_def exampleAdmin_def)
  have minutes: "remainingMinutes 900000 600000 = 5"
    by (simp add: remainingMinutes_def)
  show ?thesis
    using signed stored account
      locked_login_refused
        [where idp = exampleIdp and pw = "''secret''" and d = lockedAdmin and now = 600000,
         OF signed stored refl account]
    by (simp add: minutes)
qed

text \<open>
  A deactivated account is refused with \<open>Inactive\<close> on both paths, whatever its lock
  says, and the session is signed out.
\<close>

lemma loginWithGoogle_inactive:
  assumes "\<not> emailNotAllowed env googleUser" and "admins s (fbUid googleUser) = Some d"
      and "\<not> isActive d"
  shows "fst (loginWithGoogle env (Inr googleUser) now s) = Inl Inactive"
    and "currentUser (snd (loginWithGoogle env (Inr googleUser) now s)) = None"
  using assms
  by (simp_all add: loginWithGoogle_def loginWithGoogle_try_def loginWithGoogle_catch_def
        getAdminData_def Let_def)

lemma loginWithEmail_inactive:
  assumes "idp em pw = Inr firebaseUser" and "admins s (fbUid firebaseUser) = Some d"
      and "em = allowedAdminEmail" and "\<not> isActive d"
  shows "fst (loginWithEmail idp now em pw s) = Inl Inactive"
    and "currentUser (snd (loginWithEmail idp now em pw s)) = None"
  using assms
  by (simp_all add: loginWithEmail_def loginWithEmail_try_def loginWithEmail_catch_def
        getAdminData_def Let_def)

theorem inactive_account_refused:
  assumes "admins s uid' = Some d" and "\<not> isActive d"
  shows "(idp allowedAdminEmail pw = Inr firebaseUser \<longrightarrow> fbUid firebaseUser = uid' \<longrightarrow>
            fst (loginWithEmail idp now allowedAdminEmail pw s) = Inl Inactive
            \<and> currentUser (snd (loginWithEmail idp now allowedAdminEmail pw s)) = None)
         \<and> (\<not> emailNotAllowed env googleUser \<longrightarrow> fbUid googleUser = uid' \<longrightarrow>
            fst (loginWithGoogle env (Inr googleUser) now s) = Inl Inactive
            \<and> currentUser (snd (loginWithGoogle env (Inr googleUser) now s)) = None)"
  using assms
  by (auto simp: loginWithEmail_inactive loginWithGoogle_inactive)

theorem inactive_account_refused_witness:
  "admins (worldWith inactiveAdmin) ''uid-1'' = Some inactiveAdmin \<and> \<not> isActive inactiveAdmin
   \<and> loginAttempts inactiveAdmin = 0
   \<and> exampleIdp allowedAdminEmail ''secret'' = Inr exampleUser \<and> fbUid exampleUser = ''uid-1''
   \<and> \<not> emailNotAllowed None exampleUser
   \<and> fst (loginWithEmail exampleIdp 1000 allowedAdminEmail ''secret'' (worldWith inactiveAdmin))
       = Inl Inactive
   \<and> fst (loginWithGoogle None (Inr exampleUser) 1000 (worldWith inactiveAdmin)) = Inl Inactive"
proof -
  have stored: "admins (worldWith inactiveAdmin) ''uid-1'' = Some inactiveAdmin"
    by (simp add: worldWith_def)
  have inactive: "\<not> isActive inactiveAdmin"
    by (simp add: inactiveAdmin_def)
  have signed: "exampleIdp allowedAdminEmail ''secret'' = Inr exampleUser"
    by (simp add: exampleIdp_def)
  show ?thesis
    using stored inactive signed
      inactive_account_refused
        [where idp = exampleIdp and pw = "''secret''" and firebaseUser = exampleUser
           and env = None and googleUser = exampleUser and now = 1000, OF stored inactive]
    by (simp add: exampleUser_def emailNotAllowed_def inactiveAdmin_def exampleAdmin_def)
qed

lemma directoryInv_admins: "admins a = admins b \<Longrightarrow> directoryInv a = directoryInv b"
  by (simp add: directoryInv_def)

lemma directoryInv_createAuditLog [simp]:
  "directoryInv (createAuditLog act em st rsn now s) = directoryInv s"
  by (simp add: directoryInv_def)

lemma directoryInv_signIn [simp]: "directoryInv (signIn now fu s) = directoryInv s"
  by (simp add: directoryInv_def)

lemma directoryInv_signOut [simp]: "directoryInv (signOut s) = directoryInv s"
  by (simp add: directoryInv_def)

lemma directoryInv_getIdToken [simp]:
  "directoryInv (snd (getIdToken force now fu s)) = directoryInv s"
  by (simp add: directoryInv_def)

lemma directoryInv_updateDoc:
  assumes "directoryInv s" and "\<And>d. wellLocked d \<Longrightarrow> wellLocked (f d)"
  shows "directoryInv (updateDoc k f s)"
  using assms
  by (auto simp: directoryInv_def admins_updateDoc split: option.splits if_splits)

lemma directoryInv_setDoc:
  assumes "directoryInv s" and "wellLocked d"
  shows "directoryInv (setDoc k d s)"
  using assms by (auto simp: directoryInv_def setDoc_def)

lemma directoryInv_loginWithEmail_reset:
  "directoryInv s \<Longrightarrow> directoryInv (snd (loginWithEmail_reset now em fu a s))"
  by (simp add: loginWithEmail_reset_def Let_def case_prod_beta)
     (rule directoryInv_updateDoc, simp_all add: wellLocked_def)

lemma directoryInv_loginWithEmail_try:
  "directoryInv s \<Longrightarrow> directoryInv (snd (loginWithEmail_try idp now em pw s))"
  by (auto simp: loginWithEmail_try_def Let_def wellLocked_def
      split: sum.splits option.splits
      intro!: directoryInv_loginWithEmail_reset directoryInv_updateDoc)

lemma directoryInv_loginWithEmail_catch:
  "directoryInv s \<Longrightarrow> directoryInv (snd (loginWithEmail_catch now em err s))"
  by (cases err)
     (auto simp: loginWithEmail_catch_def Let_def wellLocked_def
      split: option.splits sum.splits intro!: directoryInv_updateDoc)

lemma directoryInv_loginWithEmail:
  assumes "directoryInv s"
  shows "directoryInv (snd (loginWithEmail idp now em pw s))"
proof (cases "loginWithEmail_try idp now em pw s")
  case (Pair r s')
  have "directoryInv (snd (loginWithEmail_try idp now em pw s))"
    using assms by (rule directoryInv_loginWithEmail_try)
  then have inv: "directoryInv s'"
    by (simp add: Pair)
  show ?thesis
  proof (cases r)
    case (Inl err)
    then show ?thesis
      using Pair inv by (simp add: loginWithEmail_def directoryInv_loginWithEmail_catch)
  next
    case (Inr response)
    then show ?thesis
      using Pair inv by (simp add: loginWithEmail_def)
  qed
qed

lemma directoryInv_loginWithGoogle_try:
  "directoryInv s \<Longrightarrow> directoryInv (snd (loginWithGoogle_try env popup now s))"
  by (auto simp: loginWithGoogle_try_def loginWithGoogle_token_def Let_def case_prod_beta
        wellLocked_def newAdminData_def
      split: sum.splits option.splits
      intro!: directoryInv_updateDoc directoryInv_setDoc)

lemma directoryInv_loginWithGoogle_catch:
  "directoryInv s \<Longrightarrow> directoryInv (snd (loginWithGoogle_catch now err s))"
  by (cases err) (simp_all add: loginWithGoogle_catch_def)

lemma directoryInv_loginWithGoogle:
  assumes "directoryInv s"
  shows "directoryInv (snd (loginWithGoogle env popup now s))"
proof (cases "loginWithGoogle_try env popup now s")
  case (Pair r s')
  have "directoryInv (snd (loginWithGoogle_try env popup now s))"
    using assms by (rule directoryInv_loginWithGoogle_try)
  then have inv: "directoryInv s'"
    by (simp add: Pair)
  show ?thesis
  proof (cases r)
    case (Inl err)
    then show ?thesis
      using Pair inv by (simp add: loginWithGoogle_def directoryInv_loginWithGoogle_catch)
  next
    case (Inr response)
    then show ?thesis
      using Pair inv by (simp add: loginWithGoogle_def)
  qed
qed

lemma directoryInv_onAuthChange:
  "directoryInv s \<Longrightarrow> directoryInv (snd (onAuthChange env now s))"
  by (auto simp: onAuthChange_def Let_def case_prod_beta wellLocked_def newAdminData_def
      split: option.splits intro!: directoryInv_setDoc)

lemma directoryInv_firebaseLogout:
  "directoryInv s \<Longrightarrow> directoryInv (firebaseLogout now s)"
  by (simp add: firebaseLogout_def split: option.splits)

text \<open>
  The invariant of the data model, \<open>isLocked\<close> implies \<open>lockedUntil\<close> is set, holds of
  every document after each operation of the gateway when it held before.
\<close>

theorem gateway_keeps_lock_invariant:
  assumes "directoryInv s"
  shows "directoryInv (snd (loginWithEmail idp now em pw s))
         \<and> directoryInv (snd (loginWithGoogle env popup now s))
         \<and> directoryInv (snd (onAuthChange env now s))
         \<and> directoryInv (firebaseLogout now s)"
  using assms
  by (simp add: directoryInv_loginWithEmail directoryInv_loginWithGoogle
        directoryInv_onAuthChange directoryInv_firebaseLogout)

text \<open>
  A directory that holds the administrator's document under the e-mail as well, with four
  failed attempts counted: the fifth failure locks that document, with its
  \<open>lockedUntil\<close>.
\<close>

theorem gateway_keeps_lock_invariant_witness:
  "directoryInv countedWorld
   \<and> directoryInv (snd (loginWithEmail exampleIdp 1000 allowedAdminEmail ''wrong'' countedWorld))
   \<and> map_option isLocked
        (admins (snd (loginWithEmail exampleIdp 1000 allowedAdminEmail ''wrong'' countedWorld))
           allowedAdminEmail) = Some True
   \<and> map_option lockedUntil
        (admins (snd (loginWithEmail exampleIdp 1000 allowedAdminEmail ''wrong'' countedWorld))
           allowedAdminEmail) = Some (Some 901000)"
proof -
  have inv: "directoryInv countedWorld"
    by (simp add: directoryInv_def countedWorld_def wellLocked_def exampleAdmin_def)
  have rejected: "exampleIdp allowedAdminEmail ''wrong''
                    = Inl (''auth/invalid-credential'',
                           ''Firebase: Error (auth/invalid-credential).'')"
    by (simp add: exampleIdp_def)
  have stored: "admins countedWorld allowedAdminEmail = Some (exampleAdmin\<lparr>loginAttempts := 4\<rparr>)"
    by (simp add: countedWorld_def)
  have plain: "CHR ''/'' \<notin> set allowedAdminEmail" "allowedAdminEmail \<noteq> []"
    by (simp_all add: allowedAdminEmail_def)
  note locked = loginWithEmail_fifth_failure(2)
    [where idp = exampleIdp and pw = "''wrong''" and now = 1000, OF rejected _ plain stored]
  show ?thesis
    using inv
      gateway_keeps_lock_invariant
        [where idp = exampleIdp and now = 1000 and em = allowedAdminEmail and pw = "''wrong''",
         OF inv]
    by (simp add: locked)
qed

text \<open>
  The failure path counts on the document whose id is the e-mail submitted, an e-mail
  that can be an id: with four failures on that document, the fifth locks it for 15
  minutes in the update that counts it, and the login is answered with
  \<open>TooManyAttempts\<close>.
\<close>

theorem fifth_failure_locks_document_of_email:
  assumes "idp em pw = Inl (code, msg)"
      and "code = ''auth/wrong-password'' \<or> code = ''auth/invalid-credential''"
      and "CHR ''/'' \<notin> set em" and "em \<noteq> []"
      and "admins s em = Some d" and "loginAttempts d = 4"
  shows "fst (loginWithEmail idp now em pw s) = Inl TooManyAttempts
         \<and> admins (snd (loginWithEmail idp now em pw s)) =
             (admins s)(em \<mapsto> d\<lparr>loginAttempts := 5, isLocked := True,
                                 lockedUntil := Some (now + 15 * 60 * 1000), updatedAt := now\<rparr>)"
  using assms
  by (auto simp: loginWithEmail_def loginWithEmail_try_def loginWithEmail_catch_plain Let_def
        admins_updateDoc)

theorem fifth_failure_locks_document_of_email_witness:
  "exampleIdp allowedAdminEmail ''wrong''
     = Inl (''auth/invalid-credential'', ''Firebase: Error (auth/invalid-credential).'')
   \<and> CHR ''/'' \<notin> set allowedAdminEmail \<and> allowedAdminEmail \<noteq> []
   \<and> admins countedWorld allowedAdminEmail = Some (exampleAdmin\<lparr>loginAttempts := 4\<rparr>)
   \<and> loginAttempts (exampleAdmin\<lparr>loginAttempts := 4\<rparr>) = 4
   \<and> fst (loginWithEmail exampleIdp 1000 allowedAdminEmail ''wrong'' countedWorld)
       = Inl TooManyAttempts
   \<and> map_option isLocked
        (admins (snd (loginWithEmail exampleIdp 1000 allowedAdminEmail ''wrong'' countedWorld))
           ''uid-1'') = Some False"
proof -
  have rejected: "exampleIdp allowedAdminEmail ''wrong''
                    = Inl (''auth/invalid-credential'',
                           ''Firebase: Error (auth/invalid-credential).'')"
    by (simp add: exampleIdp_def)
  have stored: "admins countedWorld allowedAdminEmail = Some (exampleAdmin\<lparr>loginAttempts := 4\<rparr>)"
    by (simp add: countedWorld_def)
  have other: "admins countedWorld ''uid-1'' = Some exampleAdmin"
    by (simp add: countedWorld_def allowedAdminEmail_def)
  have plain: "CHR ''/'' \<notin> set allowedAdminEmail" "allowedAdminEmail \<noteq> []"
    by (simp_all add: allowedAdminEmail_def)
  note locked = fifth_failure_locks_document_of_email
    [where idp = exampleIdp and pw = "''wrong''" and now = 1000, OF rejected _ plain stored]
  show ?thesis
    using rejected stored other locked plain
    by (simp add: allowedAdminEmail_def exampleAdmin_def)
qed

end
